theory Spec2Isabelle
  imports Main "HOL-Library.AList" "HOL-Library.Char_ord" "HOL-Library.List_Lexorder"
    "HOL-Library.Multiset"
begin

section \<open>JavaScript values used by the gallery code\<close>

text \<open>
  Strings are \<^typ>\<open>string\<close>: a character is a code unit below 256, so the strings of the
  model are the Latin-1 strings of the program. A property that may be absent at run time
  (the listing is parsed JSON, typed \<open>any\<close>) is a \<^typ>\<open>string option\<close>, with \<open>None\<close>
  for \<open>undefined\<close>. A thrown object is a \<open>js_error\<close> carrying its optional \<open>message\<close>;
  \<open>TypeError\<close> is what the host throws on a property read of \<open>undefined\<close> or \<open>null\<close>.
\<close>

datatype js_error = Error (message: "string option")

datatype host_error = TypeError

text \<open>Truthiness of a string-or-undefined value: \<open>undefined\<close> and \<open>''\<close> are falsy.\<close>

definition truthy :: "string option \<Rightarrow> bool" where
  "truthy v = (case v of None \<Rightarrow> False | Some s \<Rightarrow> s \<noteq> [])"

text \<open>\<open>v || d\<close> for a string-or-undefined \<open>v\<close> and a string \<open>d\<close>.\<close>

definition or_else :: "string option \<Rightarrow> string \<Rightarrow> string" where
  "or_else v d = (case v of None \<Rightarrow> d | Some s \<Rightarrow> if s = [] then d else s)"

text \<open>A value interpolated into a template literal.\<close>

definition interpolate :: "string option \<Rightarrow> string" where
  "interpolate v = (case v of None \<Rightarrow> ''undefined'' | Some s \<Rightarrow> s)"

text \<open>Decimal rendering of a count interpolated into a template literal.\<close>

fun digits :: "nat \<Rightarrow> string" where
  "digits n = (if n < 10 then [''0123456789'' ! n]
               else digits (n div 10) @ [''0123456789'' ! (n mod 10)])"

declare digits.simps [simp del]

text \<open>\<open>s.split(c)\<close> for a one-character separator: never empty, \<open>n + 1\<close> pieces for
  \<open>n\<close> separators.\<close>

fun split_str :: "char \<Rightarrow> string \<Rightarrow> string list" where
  "split_str c [] = [[]]"
| "split_str c (x # xs) =
     (if x = c then [] # split_str c xs
      else (case split_str c xs of [] \<Rightarrow> [[x]] | s # ss \<Rightarrow> (x # s) # ss))"

text \<open>\<open>arr.pop()\<close> read as a value: the last element, \<open>undefined\<close> on an empty array.\<close>

definition pop :: "'a list \<Rightarrow> 'a option" where
  "pop xs = (if xs = [] then None else Some (last xs))"

text \<open>\<open>s.toLowerCase()\<close>: the upper case letters below 256 are \<open>A\<close> to \<open>Z\<close> (65 to 90) and
  the accented ones at 192 to 214 and 216 to 222; each has its lower case 32 above.\<close>

definition lower_char :: "char \<Rightarrow> char" where
  "lower_char c =
     (let n = (of_char c :: nat)
      in if (65 \<le> n \<and> n \<le> 90) \<or> (192 \<le> n \<and> n \<le> 214) \<or> (216 \<le> n \<and> n \<le> 222)
         then char_of (n + 32) else c)"

definition toLowerCase :: "string \<Rightarrow> string" where
  "toLowerCase s = map lower_char s"

text \<open>\<open>s.includes(sub)\<close>: \<open>sub\<close> occurs in \<open>s\<close> as a contiguous substring.\<close>

fun includes_str :: "string \<Rightarrow> string \<Rightarrow> bool" where
  "includes_str [] sub = (sub = [])"
| "includes_str (x # xs) sub = (take (length sub) (x # xs) = sub \<or> includes_str xs sub)"

text \<open>\<open>s.trim()\<close>: the white space and line terminators below 256 are the tab, the line
  feed, the vertical tab, the form feed, the carriage return, the space and the no-break
  space.\<close>

definition is_space :: "char \<Rightarrow> bool" where
  "is_space c = (of_char c \<in> {9, 10, 11, 12, 13, 32, 160 :: nat})"

definition trim :: "string \<Rightarrow> string" where
  "trim s = rev (dropWhile is_space (rev (dropWhile is_space s)))"

text \<open>
  \<open>String.prototype.localeCompare\<close> belongs to the host and collates by locale: it is a
  parameter \<open>localeCompare\<close> of everything that sorts, and no order of the names is fixed
  here.

  \<open>[...xs].sort(cmp)\<close>: the sort of the language standard is stable, so with a consistent
  comparator its result is the one of a stable insertion sort.
\<close>

fun insert_sorted :: "('a \<Rightarrow> 'a \<Rightarrow> int) \<Rightarrow> 'a \<Rightarrow> 'a list \<Rightarrow> 'a list" where
  "insert_sorted cmp x [] = [x]"
| "insert_sorted cmp x (y # ys) =
     (if cmp x y \<le> 0 then x # y # ys else y # insert_sorted cmp x ys)"

definition sort_with :: "('a \<Rightarrow> 'a \<Rightarrow> int) \<Rightarrow> 'a list \<Rightarrow> 'a list" where
  "sort_with cmp xs = foldr (insert_sorted cmp) xs []"

text \<open>\<open>Set.prototype.add\<close> on a set kept in insertion order.\<close>

definition set_add :: "'a list \<Rightarrow> 'a \<Rightarrow> 'a list" where
  "set_add s x = (if x \<in> set s then s else s @ [x])"

section \<open>The GitHub service\<close>

record GitHubFile =
  name :: string
  type :: string
  download_url :: string
  sha :: "string option"
  path :: string

text \<open>
  What \<open>fetch\<close> gives back: it rejects with an error, or resolves to a response whose
  \<open>json()\<close> throws or yields the parsed body.
\<close>

datatype 'a response = Response (ok: bool) (statusText: string) (json: "js_error + 'a")

type_synonym 'a fetched = "js_error + 'a response"

text \<open>The parsed body of a contents listing: an array of entries, or anything else.\<close>

datatype listing = Array "GitHubFile list" | NotArray

definition image_extensions :: "string list" where
  "image_extensions = [''jpg'', ''jpeg'', ''png'', ''gif'', ''webp'', ''bmp'', ''svg'']"

definition isImageFile :: "string \<Rightarrow> bool" where
  "isImageFile filename =
     (let ext = map_option toLowerCase (pop (split_str (CHR ''.'') filename))
      in or_else ext [] \<in> set image_extensions)"

definition getRepoFiles :: "listing fetched \<Rightarrow> js_error + GitHubFile list" where
  "getRepoFiles fetched =
     (case fetched of
        Inl e \<Rightarrow> Inl e
      | Inr resp \<Rightarrow>
          if \<not> ok resp
          then Inl (Error (Some (''Failed to fetch repo contents: '' @ statusText resp)))
          else (case json resp of
                  Inl e \<Rightarrow> Inl e
                | Inr NotArray \<Rightarrow> Inr []
                | Inr (Array data) \<Rightarrow>
                    Inr (filter (\<lambda>file. type file = ''file'' \<and> isImageFile (name file)) data)))"

text \<open>The body of a failed delete is an object whose \<open>message\<close> may be absent.\<close>

definition deleteFileFromGitHub :: "string option fetched \<Rightarrow> js_error + unit" where
  "deleteFileFromGitHub fetched =
     (case fetched of
        Inl e \<Rightarrow> Inl e
      | Inr resp \<Rightarrow>
          if \<not> ok resp
          then (case json resp of
                  Inl e \<Rightarrow> Inl e
                | Inr err \<Rightarrow> Inl (Error (Some (or_else err ''Failed to delete file''))))
          else Inr ())"

section \<open>The repository cleanup modal\<close>

record DuplicateGroup =
  group_sha :: "string option"
  files :: "GitHubFile list"

record state =
  token :: string
  repoStr :: string
  folderPath :: string
  isScanning :: bool
  duplicates :: "DuplicateGroup list"
  selectedToDelete :: "string list"
  status :: "string option"
  isDeleting :: bool
  showConfirm :: bool

definition parseRepo :: "string \<Rightarrow> (string \<times> string) option" where
  "parseRepo str =
     (case split_str (CHR ''/'') str of
        [p0, p1] \<Rightarrow>
          (let owner = trim p0; repo = trim p1
           in if owner = [] \<or> repo = [] then None else Some (owner, repo))
      | _ \<Rightarrow> None)"

subsection \<open>Scanning: grouping by content hash\<close>

text \<open>
  The \<open>Map\<close> from hash to files is an association list in insertion order; the key of a
  record without a hash is \<open>undefined\<close>, a key like any other.
\<close>

type_synonym shaMap = "(string option \<times> GitHubFile list) list"

definition shaMap_push :: "shaMap \<Rightarrow> GitHubFile \<Rightarrow> shaMap" where
  "shaMap_push m file =
     (let list = (case map_of m (sha file) of None \<Rightarrow> [] | Some l \<Rightarrow> l)
      in AList.update (sha file) (list @ [file]) m)"

definition build_shaMap :: "GitHubFile list \<Rightarrow> shaMap" where
  "build_shaMap fs = foldl shaMap_push [] fs"

text \<open>The comparator given to \<open>sort\<close>: name length first, then \<open>localeCompare\<close>.\<close>

definition compareFiles :: "(string \<Rightarrow> string \<Rightarrow> int) \<Rightarrow> GitHubFile \<Rightarrow> GitHubFile \<Rightarrow> int" where
  "compareFiles localeCompare a b =
     (if length (name a) \<noteq> length (name b)
      then int (length (name a)) - int (length (name b))
      else localeCompare (name a) (name b))"

text \<open>One call of the callback of \<open>shaMap.forEach\<close>, on the pair \<open>(dupes, toDelete)\<close>.\<close>

definition scan_group ::
  "(string \<Rightarrow> string \<Rightarrow> int) \<Rightarrow> DuplicateGroup list \<times> string list
     \<Rightarrow> string option \<times> GitHubFile list \<Rightarrow> DuplicateGroup list \<times> string list" where
  "scan_group localeCompare acc entry =
     (case (acc, entry) of
        ((dupes, toDelete), (k, groupFiles)) \<Rightarrow>
          if length groupFiles > 1
          then (let sorted = sort_with (compareFiles localeCompare) groupFiles
                in (dupes @ [\<lparr>group_sha = k, files = sorted\<rparr>],
                    foldl set_add toDelete (map path (drop 1 sorted))))
          else (dupes, toDelete))"

definition findDuplicates ::
  "(string \<Rightarrow> string \<Rightarrow> int) \<Rightarrow> GitHubFile list \<Rightarrow> DuplicateGroup list \<times> string list" where
  "findDuplicates localeCompare fs = foldl (scan_group localeCompare) ([], []) (build_shaMap fs)"

text \<open>
  \<open>handleScan\<close> as a transformer of the component state. The remote listing is the
  parameter \<open>remote\<close>, asked with the token, owner, repository and folder.
\<close>

definition handleScan ::
  "(string \<Rightarrow> string \<Rightarrow> int)
     \<Rightarrow> (string \<Rightarrow> string \<Rightarrow> string \<Rightarrow> string \<Rightarrow> listing fetched) \<Rightarrow> state \<Rightarrow> state" where
  "handleScan localeCompare remote s =
     (let cleanToken = trim (token s) in
      case parseRepo (repoStr s) of
        None \<Rightarrow> s\<lparr>status := Some ''Please enter a valid Token and Repo (user/repo).''\<rparr>
      | Some (owner, repo) \<Rightarrow>
          if cleanToken = []
          then s\<lparr>status := Some ''Please enter a valid Token and Repo (user/repo).''\<rparr>
          else
            (let s1 = s\<lparr>isScanning := True, status := Some ''Scanning repository for files...'',
                        duplicates := [], selectedToDelete := [], showConfirm := False\<rparr>
             in case getRepoFiles (remote cleanToken owner repo (trim (folderPath s))) of
                  Inl err \<Rightarrow>
                    s1\<lparr>status := Some (''Error: '' @ interpolate (message err)),
                       isScanning := False\<rparr>
                | Inr fs \<Rightarrow>
                    (case findDuplicates localeCompare fs of
                       (dupes, toDelete) \<Rightarrow>
                         s1\<lparr>duplicates := dupes, selectedToDelete := toDelete,
                            status := Some (if length dupes = 0
                              then ''No duplicates found! Your repo is clean.''
                              else ''Found '' @ digits (length dupes)
                                   @ '' groups of duplicate images.''),
                            isScanning := False\<rparr>)))"

text \<open>
  The label of a group in the rendered list, \<open>SHA: {group.sha.substring(0, 10)}...\<close>: the
  property read throws when the hash of the group is \<open>undefined\<close>.
\<close>

definition group_label :: "DuplicateGroup \<Rightarrow> host_error + string" where
  "group_label g =
     (case group_sha g of
        None \<Rightarrow> Inl TypeError
      | Some h \<Rightarrow> Inr (''SHA: '' @ take 10 h @ ''...''))"

subsection \<open>Deleting the selected paths\<close>

text \<open>
  The loop variables of \<open>executeDelete\<close>, with two traces of its effects: the
  \<open>(path, sha)\<close> of every call of \<open>deleteFileFromGitHub\<close>, in order, and the paths
  given to \<open>console.warn\<close>.
\<close>

record tally =
  deletedCount :: nat
  errorCount :: nat
  lastError :: string
  requests :: "(string \<times> string) list"
  warnings :: "string list"

definition tally0 :: tally where
  "tally0 = \<lparr>deletedCount = 0, errorCount = 0, lastError = [], requests = [], warnings = []\<rparr>"

text \<open>The inner loop over the groups: the hash of the first member found with the path;
  \<open>''\<close> when no group has one.\<close>

fun lookupSha :: "DuplicateGroup list \<Rightarrow> string \<Rightarrow> string option" where
  "lookupSha [] p = Some []"
| "lookupSha (g # gs) p =
     (case find (\<lambda>f. path f = p) (files g) of
        Some f \<Rightarrow> sha f
      | None \<Rightarrow> lookupSha gs p)"

definition scope_hint :: string where
  "scope_hint = ''404 Not Found (Check if Token has 'repo' or 'public_repo' write scope)''"

text \<open>The \<open>catch\<close> block's choice of \<open>lastError\<close>.\<close>

definition classify :: "js_error \<Rightarrow> string" where
  "classify error =
     (if (case message error of None \<Rightarrow> False
          | Some m \<Rightarrow> m \<noteq> [] \<and> includes_str m ''Not Found'')
      then scope_hint
      else or_else (message error) ''Unknown error'')"

text \<open>
  One iteration of the loop over the paths. The remote is the parameter \<open>remote\<close>, asked
  with the path and the hash of the request (token, owner and repository are the same for
  the whole batch).
\<close>

definition delete_step ::
  "(string \<Rightarrow> string \<Rightarrow> string option fetched) \<Rightarrow> DuplicateGroup list \<Rightarrow> tally \<Rightarrow> string \<Rightarrow> tally"
  where
  "delete_step remote groups t p =
     (case lookupSha groups p of
        None \<Rightarrow> t\<lparr>warnings := warnings t @ [p]\<rparr>
      | Some s \<Rightarrow>
          if s = [] then t\<lparr>warnings := warnings t @ [p]\<rparr>
          else (case deleteFileFromGitHub (remote p s) of
                  Inr _ \<Rightarrow>
                    t\<lparr>requests := requests t @ [(p, s)], deletedCount := deletedCount t + 1\<rparr>
                | Inl error \<Rightarrow>
                    t\<lparr>requests := requests t @ [(p, s)], errorCount := errorCount t + 1,
                      lastError := classify error\<rparr>))"

fun delete_loop ::
  "(string \<Rightarrow> string \<Rightarrow> string option fetched) \<Rightarrow> DuplicateGroup list \<Rightarrow> tally \<Rightarrow> string list \<Rightarrow> tally"
  where
  "delete_loop remote groups t [] = t"
| "delete_loop remote groups t (p # ps) =
     delete_loop remote groups (delete_step remote groups t p) ps"

definition report :: "tally \<Rightarrow> string" where
  "report t =
     (if errorCount t > 0
      then ''Completed with errors. Deleted: '' @ digits (deletedCount t)
           @ ''. Failed: '' @ digits (errorCount t) @ ''. Last Error: '' @ lastError t
      else ''Cleanup complete! Successfully deleted '' @ digits (deletedCount t) @ '' files.'')"

text \<open>
  \<open>executeDelete\<close>: the state it leaves, the tally of its batch, and whether it set the
  timer that runs \<open>handleScan\<close> again. The remote is asked with the trimmed token, the
  owner and the repository in front of the path and the hash.
\<close>

record run =
  final :: state
  batch :: tally
  rescanScheduled :: bool

definition executeDelete ::
  "(string \<Rightarrow> string \<Rightarrow> string \<Rightarrow> string \<Rightarrow> string \<Rightarrow> string option fetched) \<Rightarrow> state \<Rightarrow> run"
  where
  "executeDelete remote s =
     (if length (selectedToDelete s) = 0
      then \<lparr>final = s, batch = tally0, rescanScheduled = False\<rparr>
      else
        (let cleanToken = trim (token s) in
         case parseRepo (repoStr s) of
           None \<Rightarrow>
             \<lparr>final = s\<lparr>status := Some ''Invalid repository format.'', isDeleting := False\<rparr>,
              batch = tally0, rescanScheduled = False\<rparr>
         | Some (owner, repo) \<Rightarrow>
             (let t = delete_loop (remote cleanToken owner repo) (duplicates s) tally0
                        (selectedToDelete s)
              in \<lparr>final = s\<lparr>status := Some (report t), isDeleting := False,
                             showConfirm := False\<rparr>,
                  batch = t,
                  rescanScheduled = (errorCount t = 0)\<rparr>)))"

text \<open>\<open>executeDelete\<close> followed by its timer, when it set one.\<close>

definition executeDelete_and_timer ::
  "(string \<Rightarrow> string \<Rightarrow> int)
     \<Rightarrow> (string \<Rightarrow> string \<Rightarrow> string \<Rightarrow> string \<Rightarrow> listing fetched)
     \<Rightarrow> (string \<Rightarrow> string \<Rightarrow> string \<Rightarrow> string \<Rightarrow> string \<Rightarrow> string option fetched)
     \<Rightarrow> state \<Rightarrow> state" where
  "executeDelete_and_timer localeCompare listing_remote delete_remote s =
     (let r = executeDelete delete_remote s
      in if rescanScheduled r then handleScan localeCompare listing_remote (final r) else final r)"

section \<open>The scene sandbox\<close>

text \<open>
  Modelled from the spec: the rendering library is loaded globally and is not part of the
  repository. A scene is what the sandbox reads of it (the active camera and the
  collections), and a constructor called with a scene adds its object to the collection;
  a camera becomes the active one when the scene has none.
\<close>

type_synonym vec3 = "int \<times> int \<times> int"

record camera =
  camera_name :: string
  position :: vec3
  target :: vec3
  controlsAttached :: bool

record light =
  light_name :: string
  direction :: vec3

record material =
  material_name :: string
  diffuseColor :: vec3

record mesh =
  mesh_name :: string
  mesh_material :: "material option"

record scene =
  activeCamera :: "camera option"
  cameras :: "camera list"
  lights :: "light list"
  meshes :: "mesh list"
  materials :: "material list"

definition new_Scene :: scene where
  "new_Scene = \<lparr>activeCamera = None, cameras = [], lights = [], meshes = [], materials = []\<rparr>"

text \<open>\<open>new UniversalCamera(name, (0, 0, -10), scene)\<close> and \<open>setTarget(Vector3.Zero())\<close>;
  \<open>attachControl\<close> is not called.\<close>

definition UniversalCamera :: "string \<Rightarrow> scene \<Rightarrow> scene" where
  "UniversalCamera nm sc =
     (let cam = \<lparr>camera_name = nm, position = (0, 0, - 10), target = (0, 0, 0),
                 controlsAttached = False\<rparr>
      in sc\<lparr>cameras := cameras sc @ [cam],
            activeCamera := (case activeCamera sc of None \<Rightarrow> Some cam | Some c \<Rightarrow> Some c)\<rparr>)"

definition HemisphericLight :: "string \<Rightarrow> scene \<Rightarrow> scene" where
  "HemisphericLight nm sc = sc\<lparr>lights := lights sc @ [\<lparr>light_name = nm, direction = (0, 1, 0)\<rparr>]\<rparr>"

text \<open>\<open>MeshBuilder.CreateBox\<close>, a \<open>StandardMaterial\<close> with a red diffuse colour, and the
  assignment of the material to the box.\<close>

definition ErrorBox :: "scene \<Rightarrow> scene" where
  "ErrorBox sc =
     (let mat = \<lparr>material_name = ''errMat'', diffuseColor = (1, 0, 0)\<rparr>
      in sc\<lparr>meshes := meshes sc @ [\<lparr>mesh_name = ''ErrorBox'', mesh_material = Some mat\<rparr>],
            materials := materials sc @ [mat]\<rparr>)"

text \<open>
  The generated program is a parameter: run on the new scene it leaves a scene and
  returns, throws (a syntax error of the program text throws on the untouched scene), or
  never settles. What it throws is an object with its optional \<open>message\<close> (a thrown
  string or number has none), or \<open>null\<close> or \<open>undefined\<close>, which is \<open>None\<close>.
\<close>

datatype completion = Returned | Threw "js_error option" | Pending

type_synonym program = "scene \<Rightarrow> scene \<times> completion"

text \<open>
  The state around the sandbox: the active scene, the scenes disposed of, the messages
  given to \<open>onLog\<close> and \<open>onError\<close>, and the errors with which the promise of
  \<open>runUserCode\<close> was rejected (nothing awaits it).
\<close>

record visualizer =
  sceneRef :: "scene option"
  disposed :: "scene list"
  onLog :: "string list"
  onError :: "string list"
  rejections :: "host_error list"

definition runUserCode :: "program \<Rightarrow> visualizer \<Rightarrow> visualizer" where
  "runUserCode code v =
     (let newScene = new_Scene;
          v1 = v\<lparr>disposed := (case sceneRef v of None \<Rightarrow> disposed v
                               | Some old \<Rightarrow> disposed v @ [old])\<rparr>
      in case code newScene of
           (sc, Pending) \<Rightarrow> v1\<lparr>sceneRef := Some sc\<rparr>
         | (sc, Returned) \<Rightarrow>
             (let sc1 = (if activeCamera sc = None then UniversalCamera ''FallbackCamera'' sc
                         else sc);
                  sc2 = (if length (lights sc1) = 0 then HemisphericLight ''fallbackLight'' sc1
                         else sc1)
              in v1\<lparr>sceneRef := Some sc2, onLog := onLog v @ [''Scene updated successfully.'']\<rparr>)
         | (sc, Threw None) \<Rightarrow>
             v1\<lparr>sceneRef := Some sc, rejections := rejections v @ [TypeError]\<rparr>
         | (sc, Threw (Some e)) \<Rightarrow>
             (let sc1 = (if length (meshes sc) = 0
                         then (let sc' = ErrorBox sc
                               in if activeCamera sc' = None then UniversalCamera ''ErrorCam'' sc'
                                  else sc')
                         else sc)
              in v1\<lparr>sceneRef := Some sc1,
                    onError := onError v @ [''Runtime Error: '' @ interpolate (message e)]\<rparr>))"

section \<open>Notions of the specification\<close>

text \<open>The distinct elements of a list in the order of their first occurrence.\<close>

definition first_seen :: "'a list \<Rightarrow> 'a list" where
  "first_seen ks = rev (remdups (rev ks))"

text \<open>The records of a listing that carry a given hash, in encounter order.\<close>

definition members :: "GitHubFile list \<Rightarrow> string option \<Rightarrow> GitHubFile list" where
  "members fs k = filter (\<lambda>f. sha f = k) fs"

text \<open>The order on names in the words of the claim: shorter first, then lexicographic on
  the characters.\<close>

definition name_le :: "string \<Rightarrow> string \<Rightarrow> bool" where
  "name_le a b = (length a < length b \<or> (length a = length b \<and> a \<le> b))"

text \<open>The order on names that a comparator of the host gives: shorter first, then the
  comparator.\<close>

definition name_before :: "(string \<Rightarrow> string \<Rightarrow> int) \<Rightarrow> string \<Rightarrow> string \<Rightarrow> bool" where
  "name_before cmp a b = (length a < length b \<or> (length a = length b \<and> cmp a b \<le> 0))"

text \<open>A consistent comparator, which a collation of the host is: swapping the arguments
  swaps the sign, and ``not after'' is transitive.\<close>

definition consistent :: "('a \<Rightarrow> 'a \<Rightarrow> int) \<Rightarrow> bool" where
  "consistent cmp =
     ((\<forall>a b. (cmp a b < 0) = (0 < cmp b a))
      \<and> (\<forall>a b c. cmp a b \<le> 0 \<and> cmp b c \<le> 0 \<longrightarrow> cmp a c \<le> 0))"

text \<open>The group pushed for an entry of the map.\<close>

definition as_group ::
  "(string \<Rightarrow> string \<Rightarrow> int) \<Rightarrow> string option \<times> GitHubFile list \<Rightarrow> DuplicateGroup" where
  "as_group cmp e = \<lparr>group_sha = fst e, files = sort_with (compareFiles cmp) (snd e)\<rparr>"

text \<open>The files that a scan from a state gets listed: none when the form does not pass the
  check of \<open>handleScan\<close> or the listing fails.\<close>

definition listed ::
  "(string \<Rightarrow> string \<Rightarrow> string \<Rightarrow> string \<Rightarrow> listing fetched) \<Rightarrow> state \<Rightarrow> GitHubFile list option" where
  "listed remote s =
     (case parseRepo (repoStr s) of
        None \<Rightarrow> None
      | Some (owner, repo) \<Rightarrow>
          if trim (token s) = [] then None
          else (case getRepoFiles (remote (trim (token s)) owner repo (trim (folderPath s))) of
                  Inl e \<Rightarrow> None
                | Inr fs \<Rightarrow> Some fs))"

text \<open>The hash sent with the request for a path: the one found in the groups.\<close>

definition sha_sent :: "DuplicateGroup list \<Rightarrow> string \<Rightarrow> string" where
  "sha_sent G p = or_else (lookupSha G p) []"

text \<open>The errors of the failed requests of a batch, in the order of the requests.\<close>

definition failures ::
  "(string \<Rightarrow> string \<Rightarrow> string option fetched) \<Rightarrow> DuplicateGroup list \<Rightarrow> string list \<Rightarrow> js_error list" where
  "failures R G ps =
     concat (map (\<lambda>p. if truthy (lookupSha G p)
                       then (case deleteFileFromGitHub (R p (sha_sent G p)) of
                               Inl e \<Rightarrow> [e] | Inr u \<Rightarrow> [])
                       else []) ps)"

text \<open>The errors of the host carry a text: the one of a rejected \<open>fetch\<close> and the one of a
  body that does not parse.\<close>

definition carries_text :: "'a fetched \<Rightarrow> bool" where
  "carries_text fetched =
     (case fetched of
        Inl e \<Rightarrow> truthy (message e)
      | Inr resp \<Rightarrow> (case json resp of Inl e \<Rightarrow> truthy (message e) | Inr b \<Rightarrow> True))"

text \<open>The text after the last dot of a file name, in the words of the claim: a name without
  a dot has none.\<close>

definition text_after_last_dot :: "string \<Rightarrow> string option" where
  "text_after_last_dot filename =
     (if CHR ''.'' \<in> set filename
      then Some (rev (takeWhile (\<lambda>x. x \<noteq> CHR ''.'') (rev filename)))
      else None)"

text \<open>The number that a decimal numeral writes.\<close>

definition decimal :: "string \<Rightarrow> nat" where
  "decimal ds = foldl (\<lambda>a c. 10 * a + (of_char c - 48)) 0 ds"

section \<open>Example inputs\<close>

text \<open>An example of a collation of a host: letters compare without regard to case, and
  among names equal up to case the one in lower case comes first.\<close>

definition example_collation :: "string \<Rightarrow> string \<Rightarrow> int" where
  "example_collation a b =
     (if toLowerCase a < toLowerCase b then - 1
      else if toLowerCase b < toLowerCase a then 1
      else if a = b then 0
      else if b < a then - 1 else 1)"

text \<open>A listing entry with a given name and hash.\<close>

definition file_named :: "string \<Rightarrow> string option \<Rightarrow> GitHubFile" where
  "file_named n h = \<lparr>name = n, type = ''file'', download_url = [], sha = h, path = n\<rparr>"

text \<open>A state of the modal with the defaults of the form and a token.\<close>

definition example_state :: state where
  "example_state = \<lparr>token = ''ghp_token'', repoStr = ''jaymacmac/pics'', folderPath = ''lumina-exports'',
     isScanning = False, duplicates = [], selectedToDelete = [], status = None,
     isDeleting = False, showConfirm = False\<rparr>"

text \<open>A remote whose listing is a given array of entries.\<close>

definition listing_of :: "GitHubFile list \<Rightarrow> string \<Rightarrow> string \<Rightarrow> string \<Rightarrow> string \<Rightarrow> listing fetched" where
  "listing_of fs tok owner repo dir = Inr (Response True ''OK'' (Inr (Array fs)))"

text \<open>A remote whose listing is two images with the same hash.\<close>

definition example_listing :: "string \<Rightarrow> string \<Rightarrow> string \<Rightarrow> string \<Rightarrow> listing fetched" where
  "example_listing tok owner repo dir =
     Inr (Response True ''OK'' (Inr (Array [file_named ''bbb.png'' (Some ''h''),
                                            file_named ''aaa.png'' (Some ''h'')])))"

text \<open>One group of four images.\<close>

definition example_groups :: "DuplicateGroup list" where
  "example_groups =
     [\<lparr>group_sha = Some ''h'',
       files = [file_named ''a.png'' (Some ''h''), file_named ''a1.png'' (Some ''h''),
                file_named ''a2.png'' (Some ''h''), file_named ''a3.png'' (Some ''h'')]\<rparr>]"

text \<open>The state of the modal with that group and its three redundant members selected.\<close>

definition example_selected :: state where
  "example_selected =
     example_state\<lparr>duplicates := example_groups,
       selectedToDelete := [''a1.png'', ''a2.png'', ''a3.png''], showConfirm := True\<rparr>"

text \<open>A remote that refuses the delete of \<open>a2.png\<close> and accepts every other one.\<close>

definition second_fails :: "string \<Rightarrow> string \<Rightarrow> string \<Rightarrow> string \<Rightarrow> string \<Rightarrow> string option fetched" where
  "second_fails tok owner repo p h =
     (if p = ''a2.png'' then Inr (Response False ''Conflict'' (Inr (Some ''a2.png does not match h'')))
      else Inr (Response True ''OK'' (Inr None)))"

text \<open>A remote that accepts every delete.\<close>

definition all_succeed :: "string \<Rightarrow> string \<Rightarrow> string \<Rightarrow> string \<Rightarrow> string \<Rightarrow> string option fetched" where
  "all_succeed tok owner repo p h = Inr (Response True ''OK'' (Inr None))"

text \<open>A remote that answers every delete with 404 and the message \<open>Not Found\<close>.\<close>

definition all_not_found :: "string \<Rightarrow> string \<Rightarrow> string option fetched" where
  "all_not_found p h = Inr (Response False ''Not Found'' (Inr (Some ''Not Found'')))"

text \<open>A listing in which one record has no hash, and one in which two have none.\<close>

definition example_one_missing :: "GitHubFile list" where
  "example_one_missing =
     [file_named ''a.png'' None, file_named ''b.png'' (Some ''x''), file_named ''c.png'' (Some ''x'')]"

definition example_two_missing :: "GitHubFile list" where
  "example_two_missing = [file_named ''aaa.png'' None, file_named ''bbb.png'' None]"

text \<open>A directory listing with a subdirectory, an image, a text file and a subdirectory whose
  name ends like an image.\<close>

definition example_directory :: "GitHubFile list" where
  "example_directory =
     [\<lparr>name = ''photos'', type = ''dir'', download_url = [], sha = Some ''d'', path = ''photos''\<rparr>,
      \<lparr>name = ''a.PNG'', type = ''file'', download_url = [], sha = Some ''h'', path = ''a.PNG''\<rparr>,
      \<lparr>name = ''notes.txt'', type = ''file'', download_url = [], sha = Some ''n'', path = ''notes.txt''\<rparr>,
      \<lparr>name = ''shots.png'', type = ''dir'', download_url = [], sha = Some ''e'', path = ''shots.png''\<rparr>]"

text \<open>A file whose name is \<open>png\<close>, without a dot.\<close>

definition dotless_png :: GitHubFile where
  "dotless_png = \<lparr>name = ''png'', type = ''file'', download_url = [], sha = Some ''p'', path = ''png''\<rparr>"

text \<open>A program that does nothing and returns.\<close>

definition empty_program :: program where
  "empty_program sc = (sc, Returned)"

text \<open>A program whose body is \<open>throw new Error("boom")\<close>.\<close>

definition throws_at_once :: program where
  "throws_at_once sc = (sc, Threw (Some (Error (Some ''boom''))))"

text \<open>A program that adds a mesh and then throws.\<close>

definition mesh_then_throws :: program where
  "mesh_then_throws sc =
     (sc\<lparr>meshes := meshes sc @ [\<lparr>mesh_name = ''sphere'', mesh_material = None\<rparr>]\<rparr>,
      Threw (Some (Error (Some ''boom''))))"

text \<open>A program whose body is \<open>throw null\<close>.\<close>

definition throws_null :: program where
  "throws_null sc = (sc, Threw None)"

text \<open>The visualizer before any scene.\<close>

definition visualizer0 :: visualizer where
  "visualizer0 = \<lparr>sceneRef = None, disposed = [], onLog = [], onError = [], rejections = []\<rparr>"

section \<open>Grouping by content hash\<close>

lemma first_seen_snoc:
  "first_seen (ks @ [k]) = (if k \<in> set ks then first_seen ks else first_seen ks @ [k])"
  by (simp add: first_seen_def)

lemma set_first_seen [simp]: "set (first_seen ks) = set ks"
  by (simp add: first_seen_def)

lemma distinct_first_seen [simp]: "distinct (first_seen ks)"
  by (simp add: first_seen_def)

lemma map_of_keys:
  "map_of (map (\<lambda>k. (k, F k)) ks) k = (if k \<in> set ks then Some (F k) else None)"
  by (induction ks) auto

lemma update_keys:
  "distinct ks \<Longrightarrow>
   AList.update k v (map (\<lambda>k'. (k', F k')) ks) =
     (if k \<in> set ks then map (\<lambda>k'. (k', if k' = k then v else F k')) ks
      else map (\<lambda>k'. (k', F k')) ks @ [(k, v)])"
  by (induction ks) auto

lemma build_shaMap_snoc: "build_shaMap (fs @ [f]) = shaMap_push (build_shaMap fs) f"
  by (simp add: build_shaMap_def)

lemma members_absent: "k \<notin> set (map sha fs) \<Longrightarrow> members fs k = []"
  by (induction fs) (auto simp: members_def)

lemma build_shaMap_members:
  "build_shaMap fs = map (\<lambda>k. (k, members fs k)) (first_seen (map sha fs))"
proof (induction fs rule: rev_induct)
  case Nil
  show ?case by (simp add: build_shaMap_def first_seen_def)
next
  case (snoc f fs)
  show ?case
  proof (cases "sha f \<in> set (map sha fs)")
    case True
    then show ?thesis
      using snoc
      by (auto simp: build_shaMap_snoc shaMap_push_def map_of_keys update_keys
          first_seen_snoc members_def)
  next
    case False
    then have "members fs (sha f) = []"
      by (rule members_absent)
    with False show ?thesis
      using snoc
      by (auto simp: build_shaMap_snoc shaMap_push_def map_of_keys update_keys
          first_seen_snoc members_def)
  qed
qed

lemma compareFiles_le:
  "compareFiles cmp a b \<le> 0 \<longleftrightarrow> name_before cmp (name a) (name b)"
  by (auto simp: compareFiles_def name_before_def)

lemma consistent_total: "consistent cmp \<Longrightarrow> cmp a b \<le> 0 \<or> cmp b a \<le> 0"
  unfolding consistent_def by (metis not_le order_less_imp_le)

lemma consistent_refl: "consistent cmp \<Longrightarrow> cmp a a \<le> 0"
  using consistent_total [of cmp a a] by simp

lemma consistent_trans:
  "consistent cmp \<Longrightarrow> cmp a b \<le> 0 \<Longrightarrow> cmp b c \<le> 0 \<Longrightarrow> cmp a c \<le> 0"
  unfolding consistent_def by blast

lemma name_before_total:
  "consistent cmp \<Longrightarrow> name_before cmp a b \<or> name_before cmp b a"
  using consistent_total [of cmp a b] by (auto simp: name_before_def)

lemma name_before_trans:
  "consistent cmp \<Longrightarrow> name_before cmp a b \<Longrightarrow> name_before cmp b c \<Longrightarrow> name_before cmp a c"
  by (auto simp: name_before_def dest: consistent_trans)

lemma set_insert_sorted [simp]: "set (insert_sorted cmp x ys) = insert x (set ys)"
  by (induction ys) auto

lemma mset_insert_sorted [simp]: "mset (insert_sorted cmp x ys) = add_mset x (mset ys)"
  by (induction ys) auto

lemma mset_sort_with [simp]: "mset (sort_with cmp xs) = mset xs"
  by (induction xs) (auto simp: sort_with_def)

lemma set_sort_with [simp]: "set (sort_with cmp xs) = set xs"
  by (metis mset_sort_with set_mset_mset)

lemma length_sort_with [simp]: "length (sort_with cmp xs) = length xs"
  by (metis mset_sort_with size_mset)

lemma sorted_insert_sorted:
  assumes c: "consistent cmp"
  shows "sorted_wrt (\<lambda>a b. name_before cmp (name a) (name b)) ys \<Longrightarrow>
   sorted_wrt (\<lambda>a b. name_before cmp (name a) (name b)) (insert_sorted (compareFiles cmp) x ys)"
proof (induction ys)
  case Nil
  show ?case by simp
next
  case (Cons y ys)
  show ?case
  proof (cases "compareFiles cmp x y \<le> 0")
    case True
    then have xy: "name_before cmp (name x) (name y)" by (simp add: compareFiles_le)
    have "\<forall>z\<in>set ys. name_before cmp (name x) (name z)"
      using Cons.prems xy by (auto intro: name_before_trans [OF c])
    with True xy Cons.prems show ?thesis by simp
  next
    case False
    then have "name_before cmp (name y) (name x)"
      using name_before_total [OF c, of "name x" "name y"] by (simp add: compareFiles_le)
    with False Cons show ?thesis by auto
  qed
qed

lemma sorted_sort_with:
  assumes c: "consistent cmp"
  shows "sorted_wrt (\<lambda>a b. name_before cmp (name a) (name b)) (sort_with (compareFiles cmp) xs)"
proof (induction xs)
  case Nil
  show ?case by (simp add: sort_with_def)
next
  case (Cons x xs)
  then show ?case
    using sorted_insert_sorted [OF c, of "sort_with (compareFiles cmp) xs" x]
    by (simp add: sort_with_def)
qed

lemma stable_insert_sorted:
  assumes c: "consistent cmp"
  shows "filter (\<lambda>y. name y = n) (insert_sorted (compareFiles cmp) x ys) =
     (if name x = n then x # filter (\<lambda>y. name y = n) ys else filter (\<lambda>y. name y = n) ys)"
proof (induction ys)
  case Nil
  show ?case by simp
next
  case (Cons y ys)
  have "name y = name x \<Longrightarrow> compareFiles cmp x y \<le> 0"
    using consistent_refl [OF c, of "name x"] by (simp add: compareFiles_def)
  with Cons show ?case by auto
qed

lemma stable_sort_with:
  "consistent cmp \<Longrightarrow>
   filter (\<lambda>y. name y = n) (sort_with (compareFiles cmp) xs) = filter (\<lambda>y. name y = n) xs"
  by (induction xs) (auto simp: sort_with_def stable_insert_sorted)

lemma foldl_scan_group:
  "foldl (scan_group cmp) (d, t) m =
     (d @ map (as_group cmp) (filter (\<lambda>e. 1 < length (snd e)) m),
      foldl set_add t (concat (map (\<lambda>e. map path (drop 1 (sort_with (compareFiles cmp) (snd e))))
         (filter (\<lambda>e. 1 < length (snd e)) m))))"
  by (induction m arbitrary: d t) (auto simp: scan_group_def as_group_def Let_def)

lemma set_foldl_set_add: "set (foldl set_add t xs) = set t \<union> set xs"
  by (induction xs arbitrary: t) (auto simp: set_add_def)

lemma foldl_set_add_first_seen: "foldl set_add [] xs = first_seen xs"
  by (induction xs rule: rev_induct) (auto simp: first_seen_snoc set_add_def set_foldl_set_add first_seen_def)

lemma dupes_findDuplicates:
  "fst (findDuplicates cmp fs) =
     map (\<lambda>k. \<lparr>group_sha = k, files = sort_with (compareFiles cmp) (members fs k)\<rparr>)
       (filter (\<lambda>k. 1 < length (members fs k)) (first_seen (map sha fs)))"
  by (simp add: findDuplicates_def foldl_scan_group build_shaMap_members filter_map o_def as_group_def)

lemma toDelete_findDuplicates:
  "snd (findDuplicates cmp fs) =
     first_seen (concat (map (\<lambda>g. map path (tl (files g))) (fst (findDuplicates cmp fs))))"
  by (simp add: findDuplicates_def foldl_scan_group foldl_set_add_first_seen o_def as_group_def drop_Suc)

lemmas scan_eval = findDuplicates_def build_shaMap_def shaMap_push_def scan_group_def
  sort_with_def compareFiles_def set_add_def file_named_def

lemma handleScan_listed:
  assumes "listed remote s = Some fs"
  shows "duplicates (handleScan cmp remote s) = fst (findDuplicates cmp fs)"
    and "selectedToDelete (handleScan cmp remote s) = snd (findDuplicates cmp fs)"
    and "status (handleScan cmp remote s) =
           Some (if length (fst (findDuplicates cmp fs)) = 0
                 then ''No duplicates found! Your repo is clean.''
                 else ''Found '' @ digits (length (fst (findDuplicates cmp fs)))
                      @ '' groups of duplicate images.'')"
proof -
  from assms obtain owner repo where p: "parseRepo (repoStr s) = Some (owner, repo)"
    by (auto simp: listed_def split: option.splits)
  with assms have t: "trim (token s) \<noteq> []"
    by (auto simp: listed_def split: if_splits)
  with assms p have g: "getRepoFiles (remote (trim (token s)) owner repo (trim (folderPath s))) = Inr fs"
    by (auto simp: listed_def split: sum.splits)
  obtain dd tt where f: "findDuplicates cmp fs = (dd, tt)" by (cases "findDuplicates cmp fs")
  from p t g f show "duplicates (handleScan cmp remote s) = fst (findDuplicates cmp fs)"
    and "selectedToDelete (handleScan cmp remote s) = snd (findDuplicates cmp fs)"
    and "status (handleScan cmp remote s) =
           Some (if length (fst (findDuplicates cmp fs)) = 0
                 then ''No duplicates found! Your repo is clean.''
                 else ''Found '' @ digits (length (fst (findDuplicates cmp fs)))
                      @ '' groups of duplicate images.'')"
    by (simp_all add: handleScan_def)
qed

lemma parseRepo_example: "parseRepo ''jaymacmac/pics'' = Some (''jaymacmac'', ''pics'')"
  by (simp add: parseRepo_def trim_def is_space_def)

lemma trim_example: "trim ''ghp_token'' = ''ghp_token''" "trim ''lumina-exports'' = ''lumina-exports''"
  by (simp_all add: trim_def is_space_def)

lemma isImageFile_examples:
  "isImageFile ''bbb.png''" "isImageFile ''aaa.png''" "isImageFile ''img.png''"
  "isImageFile ''image.png''" "isImageFile ''a.png''" "isImageFile ''B.png''"
  "isImageFile ''b.png''" "isImageFile ''c.png''"
  by code_simp+

lemma listed_example:
  "\<forall>f\<in>set fs. type f = ''file'' \<and> isImageFile (name f) \<Longrightarrow>
   listed (listing_of fs) example_state = Some fs"
  by (simp add: listed_def example_state_def parseRepo_example trim_example getRepoFiles_def
      listing_of_def)

lemma example_collation_le:
  "example_collation a b \<le> 0 \<longleftrightarrow>
     toLowerCase a < toLowerCase b \<or> (toLowerCase a = toLowerCase b \<and> b \<le> a)"
  by (auto simp: example_collation_def)

lemma consistent_example_collation: "consistent example_collation"
  unfolding consistent_def
proof (intro conjI allI impI)
  fix a b :: string
  show "(example_collation a b < 0) = (0 < example_collation b a)"
    by (auto simp: example_collation_def)
next
  fix a b c :: string
  assume "example_collation a b \<le> 0 \<and> example_collation b c \<le> 0"
  then show "example_collation a c \<le> 0"
    unfolding example_collation_le by auto
qed

lemma example_collation_values:
  "example_collation ''bbb.png'' ''aaa.png'' = 1"
  "example_collation ''aaa.png'' ''bbb.png'' = - 1"
  "example_collation ''B.png'' ''a.png'' = 1"
  by code_simp+

lemma keep_shortest_example:
  "findDuplicates cmp [file_named ''img.png'' h, file_named ''image.png'' h, file_named ''a.png'' h]
     = ([\<lparr>group_sha = h, files = [file_named ''a.png'' h, file_named ''img.png'' h,
                                   file_named ''image.png'' h]\<rparr>],
        [''img.png'', ''image.png''])"
  by (simp add: scan_eval)

lemma keep_first_collated_example:
  "0 < cmp ''bbb.png'' ''aaa.png'' \<Longrightarrow>
   findDuplicates cmp [file_named ''bbb.png'' h, file_named ''aaa.png'' h]
     = ([\<lparr>group_sha = h, files = [file_named ''aaa.png'' h, file_named ''bbb.png'' h]\<rparr>],
        [''bbb.png''])"
  by (simp add: scan_eval)

lemma keep_lower_case_example:
  "findDuplicates example_collation [file_named ''B.png'' h, file_named ''a.png'' h]
     = ([\<lparr>group_sha = h, files = [file_named ''a.png'' h, file_named ''B.png'' h]\<rparr>],
        [''B.png''])"
  by (simp add: scan_eval example_collation_values)

text \<open>
  C1, as stated, fails on a host whose collation puts \<open>a\<close> before \<open>B\<close>: for \<open>B.png\<close> and
  \<open>a.png\<close> under one hash the first member is \<open>a.png\<close>, which comes after \<open>B.png\<close> in the
  lexicographic order of the characters.
\<close>

theorem lexicographic_order_counterexample:
  "duplicates (handleScan example_collation
       (listing_of [file_named ''B.png'' (Some ''h''), file_named ''a.png'' (Some ''h'')])
       example_state)
     = [\<lparr>group_sha = Some ''h'',
         files = [file_named ''a.png'' (Some ''h''), file_named ''B.png'' (Some ''h'')]\<rparr>]
   \<and> \<not> name_le ''a.png'' ''B.png''
   \<and> consistent example_collation"
proof -
  let ?fs = "[file_named ''B.png'' (Some ''h''), file_named ''a.png'' (Some ''h'')]"
  have "listed (listing_of ?fs) example_state = Some ?fs"
    by (rule listed_example) (simp add: file_named_def isImageFile_examples)
  then have "duplicates (handleScan example_collation (listing_of ?fs) example_state)
      = fst (findDuplicates example_collation ?fs)"
    by (rule handleScan_listed)
  moreover have "\<not> name_le ''a.png'' ''B.png''"
    by (simp add: name_le_def)
  ultimately show ?thesis
    by (simp add: keep_lower_case_example consistent_example_collation)
qed

text \<open>
  C1, amended. After a scan that lists the files, the groups are the hashes carried by more
  than one record, in the order in which the hashes are first met. The members of a group
  are the records with its hash; with a consistent collation they are sorted by name length
  and then by the collation of the host, records of equal name staying in encounter order.
  The selection is made of the paths of all members but the first of each group. For
  \<open>img.png\<close>, \<open>image.png\<close>, \<open>a.png\<close> under one hash the first member is \<open>a.png\<close> on every
  host; for \<open>bbb.png\<close>, \<open>aaa.png\<close> it is \<open>aaa.png\<close> on every host whose collation puts
  \<open>aaa.png\<close> before \<open>bbb.png\<close>.
\<close>

theorem duplicate_groups_sorted_keep_first:
  "(listed remote s = Some fs \<longrightarrow>
      map group_sha (duplicates (handleScan localeCompare remote s))
        = filter (\<lambda>k. 1 < length (members fs k)) (first_seen (map sha fs))
    \<and> (\<forall>g\<in>set (duplicates (handleScan localeCompare remote s)).
          mset (files g) = mset (members fs (group_sha g))
        \<and> (consistent localeCompare \<longrightarrow>
             sorted_wrt (name_before localeCompare) (map name (files g))
           \<and> (\<forall>n. filter (\<lambda>f. name f = n) (files g)
                  = filter (\<lambda>f. name f = n) (members fs (group_sha g)))))
    \<and> selectedToDelete (handleScan localeCompare remote s)
        = first_seen (concat (map (\<lambda>g. map path (tl (files g)))
            (duplicates (handleScan localeCompare remote s)))))
   \<and> duplicates (handleScan localeCompare
        (listing_of [file_named ''img.png'' h, file_named ''image.png'' h, file_named ''a.png'' h])
        example_state)
       = [\<lparr>group_sha = h, files = [file_named ''a.png'' h, file_named ''img.png'' h,
                                    file_named ''image.png'' h]\<rparr>]
   \<and> selectedToDelete (handleScan localeCompare
        (listing_of [file_named ''img.png'' h, file_named ''image.png'' h, file_named ''a.png'' h])
        example_state)
       = [''img.png'', ''image.png'']
   \<and> (consistent localeCompare \<and> localeCompare ''aaa.png'' ''bbb.png'' < 0 \<longrightarrow>
        duplicates (handleScan localeCompare
          (listing_of [file_named ''bbb.png'' h, file_named ''aaa.png'' h]) example_state)
         = [\<lparr>group_sha = h, files = [file_named ''aaa.png'' h, file_named ''bbb.png'' h]\<rparr>]
      \<and> selectedToDelete (handleScan localeCompare
          (listing_of [file_named ''bbb.png'' h, file_named ''aaa.png'' h]) example_state)
         = [''bbb.png''])"
proof (intro conjI impI ballI allI)
  assume l: "listed remote s = Some fs"
  note hs = handleScan_listed [OF l, of localeCompare]
  show "map group_sha (duplicates (handleScan localeCompare remote s))
        = filter (\<lambda>k. 1 < length (members fs k)) (first_seen (map sha fs))"
    by (simp add: hs dupes_findDuplicates o_def)
  show "selectedToDelete (handleScan localeCompare remote s)
        = first_seen (concat (map (\<lambda>g. map path (tl (files g)))
            (duplicates (handleScan localeCompare remote s))))"
    unfolding hs by (rule toDelete_findDuplicates)
  fix g
  assume "g \<in> set (duplicates (handleScan localeCompare remote s))"
  then have g: "files g = sort_with (compareFiles localeCompare) (members fs (group_sha g))"
    by (auto simp: hs dupes_findDuplicates)
  show "mset (files g) = mset (members fs (group_sha g))"
    by (simp add: g)
  assume c: "consistent localeCompare"
  show "sorted_wrt (name_before localeCompare) (map name (files g))"
    using sorted_sort_with [OF c, of "members fs (group_sha g)"] by (simp add: g sorted_wrt_map)
  fix n
  show "filter (\<lambda>f. name f = n) (files g) = filter (\<lambda>f. name f = n) (members fs (group_sha g))"
    by (simp add: g stable_sort_with [OF c])
next
  let ?fs = "[file_named ''img.png'' h, file_named ''image.png'' h, file_named ''a.png'' h]"
  have l: "listed (listing_of ?fs) example_state = Some ?fs"
    by (rule listed_example) (simp add: file_named_def isImageFile_examples)
  show "duplicates (handleScan localeCompare (listing_of ?fs) example_state)
       = [\<lparr>group_sha = h, files = [file_named ''a.png'' h, file_named ''img.png'' h,
                                    file_named ''image.png'' h]\<rparr>]"
    and "selectedToDelete (handleScan localeCompare (listing_of ?fs) example_state)
       = [''img.png'', ''image.png'']"
    by (simp_all add: handleScan_listed [OF l] keep_shortest_example)
next
  let ?fs = "[file_named ''bbb.png'' h, file_named ''aaa.png'' h]"
  assume a: "consistent localeCompare \<and> localeCompare ''aaa.png'' ''bbb.png'' < 0"
  then have pos: "0 < localeCompare ''bbb.png'' ''aaa.png''"
    unfolding consistent_def by blast
  have l: "listed (listing_of ?fs) example_state = Some ?fs"
    by (rule listed_example) (simp add: file_named_def isImageFile_examples)
  show "duplicates (handleScan localeCompare (listing_of ?fs) example_state)
         = [\<lparr>group_sha = h, files = [file_named ''aaa.png'' h, file_named ''bbb.png'' h]\<rparr>]"
    and "selectedToDelete (handleScan localeCompare (listing_of ?fs) example_state) = [''bbb.png'']"
    by (simp_all add: handleScan_listed [OF l] keep_first_collated_example [of localeCompare h, OF pos])
qed

theorem duplicate_groups_sorted_keep_first_witness:
  "listed (listing_of [file_named ''bbb.png'' (Some ''h''), file_named ''aaa.png'' (Some ''h'')])
       example_state
     = Some [file_named ''bbb.png'' (Some ''h''), file_named ''aaa.png'' (Some ''h'')]
   \<and> consistent example_collation
   \<and> example_collation ''aaa.png'' ''bbb.png'' < 0
   \<and> duplicates (handleScan example_collation
         (listing_of [file_named ''bbb.png'' (Some ''h''), file_named ''aaa.png'' (Some ''h'')])
         example_state)
       = [\<lparr>group_sha = Some ''h'',
           files = [file_named ''aaa.png'' (Some ''h''), file_named ''bbb.png'' (Some ''h'')]\<rparr>]
   \<and> sorted_wrt (name_before example_collation) [''aaa.png'', ''bbb.png'']"
proof -
  let ?fs = "[file_named ''bbb.png'' (Some ''h''), file_named ''aaa.png'' (Some ''h'')]"
  let ?g = "\<lparr>group_sha = Some ''h'',
     files = [file_named ''aaa.png'' (Some ''h''), file_named ''bbb.png'' (Some ''h'')]\<rparr>"
  have l: "listed (listing_of ?fs) example_state = Some ?fs"
    by (rule listed_example) (simp add: file_named_def isImageFile_examples)
  note c = consistent_example_collation
  have v: "example_collation ''aaa.png'' ''bbb.png'' < 0"
    by (simp add: example_collation_values)
  note inst = duplicate_groups_sorted_keep_first
    [of "listing_of ?fs" example_state ?fs example_collation "Some ''h''"]
  from inst c v
  have d: "duplicates (handleScan example_collation (listing_of ?fs) example_state) = [?g]"
    by blast
  then have "?g \<in> set (duplicates (handleScan example_collation (listing_of ?fs) example_state))"
    by simp
  with inst l c have "sorted_wrt (name_before example_collation) (map name (files ?g))"
    by blast
  then have "sorted_wrt (name_before example_collation) [''aaa.png'', ''bbb.png'']"
    by (simp add: file_named_def)
  with l c v d show ?thesis by blast
qed

section \<open>The initial selection\<close>

lemma group_in_dupes:
  "g \<in> set (fst (findDuplicates cmp fs)) \<longleftrightarrow>
     (\<exists>k\<in>set (map sha fs). 1 < length (members fs k) \<and>
        g = \<lparr>group_sha = k, files = sort_with (compareFiles cmp) (members fs k)\<rparr>)"
  by (auto simp: dupes_findDuplicates)

lemma set_members [simp]: "set (members fs k) = {f \<in> set fs. sha f = k}"
  by (auto simp: members_def)

lemma group_member_sha:
  "g \<in> set (fst (findDuplicates cmp fs)) \<Longrightarrow> f \<in> set (files g) \<Longrightarrow> f \<in> set fs \<and> sha f = group_sha g"
  by (auto simp: group_in_dupes)

lemma group_by_sha:
  "g \<in> set (fst (findDuplicates cmp fs)) \<Longrightarrow> g' \<in> set (fst (findDuplicates cmp fs)) \<Longrightarrow>
   group_sha g = group_sha g' \<Longrightarrow> g = g'"
  by (auto simp: group_in_dupes)

lemma group_size:
  "g \<in> set (fst (findDuplicates cmp fs)) \<Longrightarrow> 1 < length (files g)"
  by (auto simp: group_in_dupes)

lemma in_group_iff:
  "(\<exists>g\<in>set (fst (findDuplicates cmp fs)). f \<in> set (files g)) \<longleftrightarrow>
     f \<in> set fs \<and> 1 < length (members fs (sha f))"
proof
  assume "\<exists>g\<in>set (fst (findDuplicates cmp fs)). f \<in> set (files g)"
  then show "f \<in> set fs \<and> 1 < length (members fs (sha f))"
    by (auto simp: group_in_dupes)
next
  assume a: "f \<in> set fs \<and> 1 < length (members fs (sha f))"
  let ?g = "\<lparr>group_sha = sha f, files = sort_with (compareFiles cmp) (members fs (sha f))\<rparr>"
  from a have "?g \<in> set (fst (findDuplicates cmp fs))"
    by (auto simp: group_in_dupes)
  moreover from a have "f \<in> set (files ?g)" by simp
  ultimately show "\<exists>g\<in>set (fst (findDuplicates cmp fs)). f \<in> set (files g)" by blast
qed

lemma distinct_sort_with: "distinct xs \<Longrightarrow> distinct (sort_with cmp xs)"
  by (metis mset_sort_with mset_eq_imp_distinct_iff)

lemma group_distinct:
  "distinct fs \<Longrightarrow> g \<in> set (fst (findDuplicates cmp fs)) \<Longrightarrow> distinct (files g)"
  by (auto simp: group_in_dupes members_def intro!: distinct_sort_with)

lemma set_toDelete:
  "set (snd (findDuplicates cmp fs)) = (\<Union>g\<in>set (fst (findDuplicates cmp fs)). path ` set (tl (files g)))"
  by (subst toDelete_findDuplicates) auto

lemma hd_not_in_tl: "distinct xs \<Longrightarrow> xs \<noteq> [] \<Longrightarrow> xs ! 0 \<notin> set (tl xs)"
  by (cases xs) auto

lemma selected_iff:
  assumes d: "distinct (map path fs)" and f: "f \<in> set fs"
  shows "path f \<in> set (snd (findDuplicates cmp fs)) \<longleftrightarrow>
           (\<exists>g\<in>set (fst (findDuplicates cmp fs)). f \<in> set (tl (files g)))"
proof
  assume "path f \<in> set (snd (findDuplicates cmp fs))"
  then obtain g f' where g: "g \<in> set (fst (findDuplicates cmp fs))"
    and f': "f' \<in> set (tl (files g))" and eq: "path f' = path f"
    by (auto simp: set_toDelete)
  from f' have "f' \<in> set (files g)" by (cases "files g") auto
  with g have "f' \<in> set fs" by (simp add: group_member_sha)
  with d f eq have "f' = f" by (auto simp: distinct_map dest: inj_onD)
  with g f' show "\<exists>g\<in>set (fst (findDuplicates cmp fs)). f \<in> set (tl (files g))" by blast
next
  assume "\<exists>g\<in>set (fst (findDuplicates cmp fs)). f \<in> set (tl (files g))"
  then show "path f \<in> set (snd (findDuplicates cmp fs))"
    by (auto simp: set_toDelete)
qed

text \<open>
  C4. After a scan that lists the files, the groups and the selection of the state are
  those of the grouping, and the selection is the set of the paths of the members of index
  one and above of every group. When the paths of the listing are distinct, as the paths of
  one remote directory are, the path of no member at index 0 is in it.
\<close>

theorem initial_selection_is_redundant_members:
  "listed remote s = Some fs \<longrightarrow>
     duplicates (handleScan localeCompare remote s) = fst (findDuplicates localeCompare fs)
   \<and> selectedToDelete (handleScan localeCompare remote s) = snd (findDuplicates localeCompare fs)
   \<and> set (selectedToDelete (handleScan localeCompare remote s))
       = (\<Union>g\<in>set (duplicates (handleScan localeCompare remote s)). path ` set (tl (files g)))
   \<and> (distinct (map path fs) \<longrightarrow>
        (\<forall>g\<in>set (duplicates (handleScan localeCompare remote s)).
            path (files g ! 0) \<notin> set (selectedToDelete (handleScan localeCompare remote s))))"
proof (intro conjI impI ballI)
  assume l: "listed remote s = Some fs"
  note hs = handleScan_listed(1,2) [OF l, of localeCompare]
  show "duplicates (handleScan localeCompare remote s) = fst (findDuplicates localeCompare fs)"
    and "selectedToDelete (handleScan localeCompare remote s) = snd (findDuplicates localeCompare fs)"
    by (rule hs)+
  show "set (selectedToDelete (handleScan localeCompare remote s))
       = (\<Union>g\<in>set (duplicates (handleScan localeCompare remote s)). path ` set (tl (files g)))"
    unfolding hs by (rule set_toDelete)
  fix g
  assume d: "distinct (map path fs)"
    and "g \<in> set (duplicates (handleScan localeCompare remote s))"
  then have g: "g \<in> set (fst (findDuplicates localeCompare fs))" by (simp add: hs)
  from d have dfs: "distinct fs" by (simp add: distinct_map)
  from g have ne: "files g \<noteq> []" using group_size [OF g] by auto
  then have k: "files g ! 0 \<in> set (files g)" by simp
  with g have kfs: "files g ! 0 \<in> set fs" and ksha: "sha (files g ! 0) = group_sha g"
    by (simp_all add: group_member_sha)
  have "path (files g ! 0) \<notin> set (snd (findDuplicates localeCompare fs))"
  proof
    assume "path (files g ! 0) \<in> set (snd (findDuplicates localeCompare fs))"
    then obtain g' where g': "g' \<in> set (fst (findDuplicates localeCompare fs))"
      and t: "files g ! 0 \<in> set (tl (files g'))"
      using selected_iff [OF d kfs] by blast
    from t have "files g ! 0 \<in> set (files g')" by (cases "files g'") auto
    with g' have "sha (files g ! 0) = group_sha g'" by (simp add: group_member_sha)
    with ksha g g' have "g = g'" by (auto intro: group_by_sha)
    with t hd_not_in_tl [OF group_distinct [OF dfs g] ne] show False by simp
  qed
  then show "path (files g ! 0) \<notin> set (selectedToDelete (handleScan localeCompare remote s))"
    by (simp add: hs)
qed

theorem initial_selection_is_redundant_members_witness:
  "listed (listing_of [file_named ''bbb.png'' (Some ''h''), file_named ''aaa.png'' (Some ''h'')])
       example_state
     = Some [file_named ''bbb.png'' (Some ''h''), file_named ''aaa.png'' (Some ''h'')]
   \<and> distinct (map path [file_named ''bbb.png'' (Some ''h''), file_named ''aaa.png'' (Some ''h'')])
   \<and> duplicates (handleScan example_collation
         (listing_of [file_named ''bbb.png'' (Some ''h''), file_named ''aaa.png'' (Some ''h'')])
         example_state)
       = [\<lparr>group_sha = Some ''h'',
           files = [file_named ''aaa.png'' (Some ''h''), file_named ''bbb.png'' (Some ''h'')]\<rparr>]
   \<and> selectedToDelete (handleScan example_collation
         (listing_of [file_named ''bbb.png'' (Some ''h''), file_named ''aaa.png'' (Some ''h'')])
         example_state)
       = [''bbb.png'']
   \<and> ''aaa.png'' \<notin> set (selectedToDelete (handleScan example_collation
         (listing_of [file_named ''bbb.png'' (Some ''h''), file_named ''aaa.png'' (Some ''h'')])
         example_state))"
proof -
  let ?fs = "[file_named ''bbb.png'' (Some ''h''), file_named ''aaa.png'' (Some ''h'')]"
  let ?g = "\<lparr>group_sha = Some ''h'',
     files = [file_named ''aaa.png'' (Some ''h''), file_named ''bbb.png'' (Some ''h'')]\<rparr>"
  let ?st = "handleScan example_collation (listing_of ?fs) example_state"
  have l: "listed (listing_of ?fs) example_state = Some ?fs"
    by (rule listed_example) (simp add: file_named_def isImageFile_examples)
  have d: "distinct (map path ?fs)" by (simp add: file_named_def)
  have e: "findDuplicates example_collation ?fs = ([?g], [''bbb.png''])"
    by (simp add: scan_eval example_collation_values)
  note inst = initial_selection_is_redundant_members [of "listing_of ?fs" example_state ?fs example_collation]
  from inst l e have 1: "duplicates ?st = [?g]" and 2: "selectedToDelete ?st = [''bbb.png'']"
    by simp_all
  from 1 have "?g \<in> set (duplicates ?st)" by simp
  with inst l d have "path (files ?g ! 0) \<notin> set (selectedToDelete ?st)" by blast
  then have 3: "''aaa.png'' \<notin> set (selectedToDelete ?st)" by (simp add: file_named_def)
  from l d 1 2 3 show ?thesis by blast
qed

section \<open>Missing hashes and repeated scans\<close>

lemma example_collation_more: "example_collation ''b.png'' ''c.png'' = - 1"
  by code_simp

lemma two_missing_example:
  "findDuplicates example_collation example_two_missing
     = ([\<lparr>group_sha = None, files = [file_named ''aaa.png'' None, file_named ''bbb.png'' None]\<rparr>],
        [''bbb.png''])"
  by (simp add: example_two_missing_def scan_eval example_collation_values)

text \<open>
  C8, as stated, fails: two records without a hash make a group under the missing hash,
  and the second one is selected for deletion.
\<close>

theorem missing_hash_grouped_counterexample:
  "listed (listing_of example_two_missing) example_state = Some example_two_missing
   \<and> sha (file_named ''bbb.png'' None) = None
   \<and> duplicates (handleScan example_collation (listing_of example_two_missing) example_state)
       = [\<lparr>group_sha = None, files = [file_named ''aaa.png'' None, file_named ''bbb.png'' None]\<rparr>]
   \<and> selectedToDelete (handleScan example_collation (listing_of example_two_missing) example_state)
       = [path (file_named ''bbb.png'' None)]"
proof -
  have l: "listed (listing_of example_two_missing) example_state = Some example_two_missing"
    by (rule listed_example) (simp add: example_two_missing_def file_named_def isImageFile_examples)
  from handleScan_listed(1,2) [OF l, of example_collation] l show ?thesis
    by (simp add: two_missing_example file_named_def)
qed

text \<open>
  C8, amended. After a scan that lists the files, every member of a group is a record of
  the listing that carries the hash of the group, so a record without a hash is only ever
  grouped with records without a hash. A record without a hash is in a group exactly when
  two or more records lack a hash and, the paths being distinct, its path is selected
  exactly when it is a member other than the first of the group of the missing hash. When
  every record carries a hash, the scan ends with the count of its groups as status and the
  label of every group can be rendered.
\<close>

theorem missing_hash_records_grouped_together:
  "listed remote s = Some fs \<longrightarrow>
     (\<forall>g\<in>set (duplicates (handleScan localeCompare remote s)).
        \<forall>f\<in>set (files g). f \<in> set fs \<and> sha f = group_sha g)
   \<and> (f \<in> set fs \<and> sha f = None \<longrightarrow>
        ((\<exists>g\<in>set (duplicates (handleScan localeCompare remote s)). f \<in> set (files g))
           \<longleftrightarrow> 1 < length (members fs None)))
   \<and> (f \<in> set fs \<and> sha f = None \<and> distinct (map path fs) \<longrightarrow>
        (path f \<in> set (selectedToDelete (handleScan localeCompare remote s))
           \<longleftrightarrow> (\<exists>g\<in>set (duplicates (handleScan localeCompare remote s)).
                  group_sha g = None \<and> f \<in> set (tl (files g)))))
   \<and> ((\<forall>f\<in>set fs. sha f \<noteq> None) \<longrightarrow>
        status (handleScan localeCompare remote s)
          = Some (if length (duplicates (handleScan localeCompare remote s)) = 0
                  then ''No duplicates found! Your repo is clean.''
                  else ''Found '' @ digits (length (duplicates (handleScan localeCompare remote s)))
                       @ '' groups of duplicate images.'')
      \<and> (\<forall>g\<in>set (duplicates (handleScan localeCompare remote s)).
            group_label g = Inr (''SHA: '' @ take 10 (or_else (group_sha g) []) @ ''...'')))"
proof (intro conjI impI ballI)
  assume l: "listed remote s = Some fs"
  note hs = handleScan_listed [OF l, of localeCompare]
  {
    fix g f'
    assume "g \<in> set (duplicates (handleScan localeCompare remote s))" and "f' \<in> set (files g)"
    then show "f' \<in> set fs" and "sha f' = group_sha g"
      by (simp_all add: hs group_member_sha)
  }
  {
    assume "f \<in> set fs \<and> sha f = None"
    then show "(\<exists>g\<in>set (duplicates (handleScan localeCompare remote s)). f \<in> set (files g))
           \<longleftrightarrow> 1 < length (members fs None)"
      using in_group_iff [of localeCompare fs f] by (simp add: hs)
  }
  {
    assume a: "f \<in> set fs \<and> sha f = None \<and> distinct (map path fs)"
    have "(\<exists>g\<in>set (fst (findDuplicates localeCompare fs)). f \<in> set (tl (files g)))
        \<longleftrightarrow> (\<exists>g\<in>set (fst (findDuplicates localeCompare fs)).
               group_sha g = None \<and> f \<in> set (tl (files g)))"
    proof
      assume "\<exists>g\<in>set (fst (findDuplicates localeCompare fs)). f \<in> set (tl (files g))"
      then obtain g where g: "g \<in> set (fst (findDuplicates localeCompare fs))"
        and t: "f \<in> set (tl (files g))" by blast
      from t have "f \<in> set (files g)" by (cases "files g") auto
      with g a have "group_sha g = None" using group_member_sha [of g localeCompare fs f] by simp
      with g t show "\<exists>g\<in>set (fst (findDuplicates localeCompare fs)).
               group_sha g = None \<and> f \<in> set (tl (files g))" by blast
    qed blast
    with a show "path f \<in> set (selectedToDelete (handleScan localeCompare remote s))
           \<longleftrightarrow> (\<exists>g\<in>set (duplicates (handleScan localeCompare remote s)).
                  group_sha g = None \<and> f \<in> set (tl (files g)))"
      using selected_iff [of fs f localeCompare] by (simp add: hs)
  }
  {
    assume w: "\<forall>f\<in>set fs. sha f \<noteq> None"
    show "status (handleScan localeCompare remote s)
          = Some (if length (duplicates (handleScan localeCompare remote s)) = 0
                  then ''No duplicates found! Your repo is clean.''
                  else ''Found '' @ digits (length (duplicates (handleScan localeCompare remote s)))
                       @ '' groups of duplicate images.'')"
      by (simp add: hs)
    fix g
    assume "g \<in> set (duplicates (handleScan localeCompare remote s))"
    then have g: "g \<in> set (fst (findDuplicates localeCompare fs))" by (simp add: hs)
    then have "group_sha g \<in> set (map sha fs)"
      by (auto simp: group_in_dupes)
    with w have "group_sha g \<noteq> None" by auto
    then obtain h where "group_sha g = Some h" by (cases "group_sha g") auto
    then show "group_label g = Inr (''SHA: '' @ take 10 (or_else (group_sha g) []) @ ''...'')"
      by (simp add: group_label_def or_else_def)
  }
qed

theorem missing_hash_records_grouped_together_witness:
  "listed (listing_of example_one_missing) example_state = Some example_one_missing
   \<and> \<lparr>group_sha = Some ''x'', files = [file_named ''b.png'' (Some ''x''), file_named ''c.png'' (Some ''x'')]\<rparr>
      \<in> set (duplicates (handleScan example_collation (listing_of example_one_missing) example_state))
   \<and> sha (file_named ''c.png'' (Some ''x'')) = Some ''x''
   \<and> file_named ''a.png'' None \<in> set example_one_missing
   \<and> sha (file_named ''a.png'' None) = None
   \<and> distinct (map path example_one_missing)
   \<and> \<not> 1 < length (members example_one_missing None)
   \<and> \<not> (\<exists>g\<in>set (duplicates (handleScan example_collation (listing_of example_one_missing)
                              example_state)).
           file_named ''a.png'' None \<in> set (files g))
   \<and> ''a.png'' \<notin> set (selectedToDelete (handleScan example_collation
                            (listing_of example_one_missing) example_state))
   \<and> listed example_listing example_state
       = Some [file_named ''bbb.png'' (Some ''h''), file_named ''aaa.png'' (Some ''h'')]
   \<and> sha (file_named ''bbb.png'' (Some ''h'')) \<noteq> None
   \<and> sha (file_named ''aaa.png'' (Some ''h'')) \<noteq> None
   \<and> status (handleScan example_collation example_listing example_state)
       = Some ''Found 1 groups of duplicate images.''"
proof -
  let ?fs = "example_one_missing"
  let ?f = "file_named ''a.png'' None"
  let ?c = "file_named ''c.png'' (Some ''x'')"
  let ?g = "\<lparr>group_sha = Some ''x'', files = [file_named ''b.png'' (Some ''x''), ?c]\<rparr>"
  let ?st = "handleScan example_collation (listing_of ?fs) example_state"
  have l: "listed (listing_of ?fs) example_state = Some ?fs"
    by (rule listed_example) (simp add: example_one_missing_def file_named_def isImageFile_examples)
  have e: "findDuplicates example_collation ?fs = ([?g], [''c.png''])"
    by (simp add: example_one_missing_def scan_eval example_collation_more)
  from handleScan_listed(1,2) [OF l, of example_collation] e
  have dd: "duplicates ?st = [?g]" and tt: "selectedToDelete ?st = [''c.png'']" by simp_all
  from dd have g: "?g \<in> set (duplicates ?st)" by simp
  have c: "?c \<in> set (files ?g)" by simp
  have f: "?f \<in> set ?fs \<and> sha ?f = None" by (simp add: example_one_missing_def file_named_def)
  have d: "distinct (map path ?fs)" by (simp add: example_one_missing_def file_named_def)
  have m: "\<not> 1 < length (members ?fs None)"
    by (simp add: example_one_missing_def members_def file_named_def)
  note inst = missing_hash_records_grouped_together
    [of "listing_of ?fs" example_state ?fs example_collation ?f]
  from inst l g c have 1: "sha ?c = group_sha ?g" by blast
  from inst l f m have 2: "\<not> (\<exists>g\<in>set (duplicates ?st). ?f \<in> set (files g))" by blast
  from inst l f d
  have "path ?f \<in> set (selectedToDelete ?st)
      \<longleftrightarrow> (\<exists>g\<in>set (duplicates ?st). group_sha g = None \<and> ?f \<in> set (tl (files g)))"
    by blast
  with dd have 3: "path ?f \<notin> set (selectedToDelete ?st)" by simp
  then have 4: "''a.png'' \<notin> set (selectedToDelete ?st)" by (simp add: file_named_def)
  from 1 have 5: "sha ?c = Some ''x''" by simp
  let ?ws = "[file_named ''bbb.png'' (Some ''h''), file_named ''aaa.png'' (Some ''h'')]"
  have l2: "listed example_listing example_state = Some ?ws"
    by (simp add: listed_def example_state_def parseRepo_example trim_example getRepoFiles_def
        example_listing_def isImageFile_examples file_named_def)
  have w: "\<forall>f\<in>set ?ws. sha f \<noteq> None" by (simp add: file_named_def)
  have e2: "findDuplicates example_collation ?ws
      = ([\<lparr>group_sha = Some ''h'', files = [file_named ''aaa.png'' (Some ''h''),
            file_named ''bbb.png'' (Some ''h'')]\<rparr>], [''bbb.png''])"
    by (simp add: scan_eval example_collation_values)
  from missing_hash_records_grouped_together
    [of example_listing example_state ?ws example_collation ?f] l2 w
  have "status (handleScan example_collation example_listing example_state)
          = Some (if length (duplicates (handleScan example_collation example_listing example_state)) = 0
                  then ''No duplicates found! Your repo is clean.''
                  else ''Found '' @ digits (length (duplicates (handleScan example_collation
                            example_listing example_state)))
                       @ '' groups of duplicate images.'')"
    by blast
  with handleScan_listed(1) [OF l2, of example_collation] e2
  have 6: "status (handleScan example_collation example_listing example_state)
       = Some ''Found 1 groups of duplicate images.''"
    by (simp add: digits.simps)
  from w have 7: "sha (file_named ''bbb.png'' (Some ''h'')) \<noteq> None"
    "sha (file_named ''aaa.png'' (Some ''h'')) \<noteq> None" by simp_all
  from l g f d m 2 4 5 l2 6 7 show ?thesis by blast
qed

text \<open>
  C5. Scanning again from the state a scan left gives the same state. After a scan whose
  listing succeeded, the groups and the selection are those of the grouping on the files
  listed: they do not depend on the groups and the selection of the state before.
\<close>

theorem rescan_reproduces_groups:
  "handleScan localeCompare remote (handleScan localeCompare remote s) = handleScan localeCompare remote s
   \<and> (parseRepo (repoStr s) = Some (owner, repo) \<and> trim (token s) \<noteq> []
        \<and> getRepoFiles (remote (trim (token s)) owner repo (trim (folderPath s))) = Inr fs \<longrightarrow>
      duplicates (handleScan localeCompare remote s) = fst (findDuplicates localeCompare fs)
      \<and> selectedToDelete (handleScan localeCompare remote s) = snd (findDuplicates localeCompare fs)
      \<and> handleScan localeCompare remote (s\<lparr>duplicates := d, selectedToDelete := t\<rparr>) = handleScan localeCompare remote s)"
proof (intro conjI impI)
  show "handleScan localeCompare remote (handleScan localeCompare remote s) = handleScan localeCompare remote s"
  proof (cases "parseRepo (repoStr s)")
    case None
    then show ?thesis by (simp add: handleScan_def)
  next
    case (Some pr)
    obtain ow rp where pr: "pr = (ow, rp)" by (cases pr)
    show ?thesis
    proof (cases "trim (token s) = []")
      case True
      with Some pr show ?thesis by (simp add: handleScan_def)
    next
      case False
      show ?thesis
      proof (cases "getRepoFiles (remote (trim (token s)) ow rp (trim (folderPath s)))")
        case (Inl e)
        with Some pr False show ?thesis by (simp add: handleScan_def)
      next
        case (Inr fs')
        obtain dd tt where f: "findDuplicates localeCompare fs' = (dd, tt)" by (cases "findDuplicates localeCompare fs'")
        with Some pr False Inr show ?thesis by (simp add: handleScan_def)
      qed
    qed
  qed
next
  assume a: "parseRepo (repoStr s) = Some (owner, repo) \<and> trim (token s) \<noteq> []
        \<and> getRepoFiles (remote (trim (token s)) owner repo (trim (folderPath s))) = Inr fs"
  then show "duplicates (handleScan localeCompare remote s) = fst (findDuplicates localeCompare fs)"
    and "selectedToDelete (handleScan localeCompare remote s) = snd (findDuplicates localeCompare fs)"
    and "handleScan localeCompare remote (s\<lparr>duplicates := d, selectedToDelete := t\<rparr>) = handleScan localeCompare remote s"
    by (simp_all add: handleScan_def Let_def split: prod.splits)
qed

theorem rescan_reproduces_groups_witness:
  "parseRepo (repoStr example_state) = Some (''jaymacmac'', ''pics'') \<and> trim (token example_state) \<noteq> []
   \<and> getRepoFiles (example_listing (trim (token example_state)) ''jaymacmac'' ''pics''
         (trim (folderPath example_state)))
       = Inr [file_named ''bbb.png'' (Some ''h''), file_named ''aaa.png'' (Some ''h'')]
   \<and> selectedToDelete (handleScan example_collation example_listing example_state) = [''bbb.png'']
   \<and> handleScan example_collation example_listing (handleScan example_collation example_listing example_state)
       = handleScan example_collation example_listing example_state"
proof -
  let ?fs = "[file_named ''bbb.png'' (Some ''h''), file_named ''aaa.png'' (Some ''h'')]"
  have p: "parseRepo (repoStr example_state) = Some (''jaymacmac'', ''pics'')"
    by (simp add: example_state_def parseRepo_example)
  have t: "trim (token example_state) \<noteq> []"
    by (simp add: example_state_def trim_example)
  have g: "getRepoFiles (example_listing (trim (token example_state)) ''jaymacmac'' ''pics''
         (trim (folderPath example_state))) = Inr ?fs"
    by (simp add: getRepoFiles_def example_listing_def isImageFile_examples file_named_def)
  from rescan_reproduces_groups [of example_collation example_listing example_state "''jaymacmac''" "''pics''" ?fs] p t g
  have "selectedToDelete (handleScan example_collation example_listing example_state) = snd (findDuplicates example_collation ?fs)"
    and "handleScan example_collation example_listing (handleScan example_collation example_listing example_state)
       = handleScan example_collation example_listing example_state"
    by blast+
  moreover have "snd (findDuplicates example_collation ?fs) = [''bbb.png'']" by (simp add: scan_eval example_collation_values)
  ultimately show ?thesis using p t g by simp
qed

section \<open>The deletion loop\<close>

lemma digit_char_all: "\<forall>n<10. (of_char (''0123456789'' ! n) :: nat) = 48 + n"
  by (simp add: eval_nat_numeral All_less_Suc)

lemma digit_char: "n < 10 \<Longrightarrow> (of_char (''0123456789'' ! n) :: nat) = 48 + n"
  using digit_char_all by blast

lemma decimal_snoc: "decimal (ds @ [c]) = 10 * decimal ds + (of_char c - 48)"
  by (simp add: decimal_def)

lemma decimal_digits: "decimal (digits n) = n"
proof (induction n rule: digits.induct)
  case (1 n)
  show ?case
  proof (cases "n < 10")
    case True
    then show ?thesis by (simp add: digits.simps [of n] decimal_def digit_char)
  next
    case False
    with 1 have "decimal (digits (n div 10)) = n div 10" by simp
    with False show ?thesis
      by (simp add: digits.simps [of n] decimal_snoc digit_char)
  qed
qed

lemma delete_step_skip:
  "\<not> truthy (lookupSha G p) \<Longrightarrow> delete_step R G t p = t\<lparr>warnings := warnings t @ [p]\<rparr>"
  by (auto simp: delete_step_def truthy_def split: option.splits)

lemma delete_step_ok:
  "truthy (lookupSha G p) \<Longrightarrow> deleteFileFromGitHub (R p (sha_sent G p)) = Inr u \<Longrightarrow>
   delete_step R G t p =
     t\<lparr>requests := requests t @ [(p, sha_sent G p)], deletedCount := deletedCount t + 1\<rparr>"
  by (auto simp: delete_step_def truthy_def sha_sent_def or_else_def split: option.splits)

lemma delete_step_fail:
  "truthy (lookupSha G p) \<Longrightarrow> deleteFileFromGitHub (R p (sha_sent G p)) = Inl e \<Longrightarrow>
   delete_step R G t p =
     t\<lparr>requests := requests t @ [(p, sha_sent G p)], errorCount := errorCount t + 1,
       lastError := classify e\<rparr>"
  by (auto simp: delete_step_def truthy_def sha_sent_def or_else_def split: option.splits)

lemma delete_step_effects:
  "requests (delete_step R G t p) =
     requests t @ (if truthy (lookupSha G p) then [(p, sha_sent G p)] else [])"
  "warnings (delete_step R G t p) =
     warnings t @ (if truthy (lookupSha G p) then [] else [p])"
  "deletedCount (delete_step R G t p) =
     deletedCount t + (if truthy (lookupSha G p) \<and> deleteFileFromGitHub (R p (sha_sent G p)) = Inr ()
                       then 1 else 0)"
  "errorCount (delete_step R G t p) = errorCount t + length (failures R G [p])"
  "lastError (delete_step R G t p) =
     (if failures R G [p] = [] then lastError t else classify (last (failures R G [p])))"
proof -
  consider (skip) "\<not> truthy (lookupSha G p)"
    | (ok) "truthy (lookupSha G p)" "deleteFileFromGitHub (R p (sha_sent G p)) = Inr ()"
    | (fail) e where "truthy (lookupSha G p)" "deleteFileFromGitHub (R p (sha_sent G p)) = Inl e"
    by (cases "deleteFileFromGitHub (R p (sha_sent G p))") auto
  then have "requests (delete_step R G t p) =
     requests t @ (if truthy (lookupSha G p) then [(p, sha_sent G p)] else [])
   \<and> warnings (delete_step R G t p) =
     warnings t @ (if truthy (lookupSha G p) then [] else [p])
   \<and> deletedCount (delete_step R G t p) =
     deletedCount t + (if truthy (lookupSha G p) \<and> deleteFileFromGitHub (R p (sha_sent G p)) = Inr ()
                       then 1 else 0)
   \<and> errorCount (delete_step R G t p) = errorCount t + length (failures R G [p])
   \<and> lastError (delete_step R G t p) =
     (if failures R G [p] = [] then lastError t else classify (last (failures R G [p])))"
  proof cases
    case skip
    then show ?thesis by (simp add: delete_step_skip failures_def)
  next
    case ok
    then show ?thesis by (simp add: delete_step_ok failures_def)
  next
    case fail
    then show ?thesis by (simp add: delete_step_fail failures_def)
  qed
  then show
    "requests (delete_step R G t p) =
       requests t @ (if truthy (lookupSha G p) then [(p, sha_sent G p)] else [])"
    "warnings (delete_step R G t p) =
       warnings t @ (if truthy (lookupSha G p) then [] else [p])"
    "deletedCount (delete_step R G t p) =
       deletedCount t + (if truthy (lookupSha G p) \<and> deleteFileFromGitHub (R p (sha_sent G p)) = Inr ()
                         then 1 else 0)"
    "errorCount (delete_step R G t p) = errorCount t + length (failures R G [p])"
    "lastError (delete_step R G t p) =
       (if failures R G [p] = [] then lastError t else classify (last (failures R G [p])))"
    by blast+
qed

lemma failures_Cons: "failures R G (p # ps) = failures R G [p] @ failures R G ps"
  by (simp add: failures_def)

lemma requests_delete_loop:
  "requests (delete_loop R G t ps) =
     requests t @ map (\<lambda>p. (p, sha_sent G p)) (filter (\<lambda>p. truthy (lookupSha G p)) ps)"
  by (induction ps arbitrary: t) (simp_all add: delete_step_effects)


lemma deletedCount_delete_loop:
  "deletedCount (delete_loop R G t ps) =
     deletedCount t + length (filter (\<lambda>p. truthy (lookupSha G p)
        \<and> deleteFileFromGitHub (R p (sha_sent G p)) = Inr ()) ps)"
  by (induction ps arbitrary: t) (simp_all add: delete_step_effects)

lemma errorCount_delete_loop:
  "errorCount (delete_loop R G t ps) = errorCount t + length (failures R G ps)"
proof (induction ps arbitrary: t)
  case Nil
  show ?case by (simp add: failures_def)
next
  case (Cons p ps)
  show ?case
    by (simp add: Cons.IH delete_step_effects(4) failures_Cons [of R G p ps])
qed

lemma lastError_delete_loop:
  "lastError (delete_loop R G t ps) =
     (if failures R G ps = [] then lastError t else classify (last (failures R G ps)))"
proof (induction ps arbitrary: t)
  case Nil
  show ?case by (simp add: failures_def)
next
  case (Cons p ps)
  show ?case
    by (simp add: Cons.IH delete_step_effects(5) failures_Cons [of R G p ps])
qed

lemma length_failures:
  "length (failures R G ps) =
     length (filter (\<lambda>p. truthy (lookupSha G p)
        \<and> deleteFileFromGitHub (R p (sha_sent G p)) \<noteq> Inr ()) ps)"
proof (induction ps)
  case Nil
  show ?case by (simp add: failures_def)
next
  case (Cons p ps)
  have "length (failures R G [p]) =
      (if truthy (lookupSha G p) \<and> deleteFileFromGitHub (R p (sha_sent G p)) \<noteq> Inr () then 1 else 0)"
    by (cases "deleteFileFromGitHub (R p (sha_sent G p))") (simp_all add: failures_def)
  with Cons show ?case
    by (simp add: failures_Cons [of R G p ps])
qed

lemma executeDelete_batch:
  assumes "selectedToDelete s \<noteq> []" and "parseRepo (repoStr s) = Some (owner, repo)"
  shows "executeDelete remote s =
    (let t = delete_loop (remote (trim (token s)) owner repo) (duplicates s) tally0 (selectedToDelete s)
     in \<lparr>final = s\<lparr>status := Some (report t), isDeleting := False, showConfirm := False\<rparr>,
         batch = t, rescanScheduled = (errorCount t = 0)\<rparr>)"
  using assms by (simp add: executeDelete_def Let_def)

lemmas delete_eval = executeDelete_def delete_step_def deleteFileFromGitHub_def report_def
  classify_def or_else_def tally0_def example_selected_def example_state_def example_groups_def
  file_named_def parseRepo_example trim_example digits.simps

lemma all_succeed_run:
  "executeDelete all_succeed example_selected =
     \<lparr>final = example_selected\<lparr>status :=
          Some ''Cleanup complete! Successfully deleted 3 files.'',
          isDeleting := False, showConfirm := False\<rparr>,
      batch = \<lparr>deletedCount = 3, errorCount = 0, lastError = [],
               requests = [(''a1.png'', ''h''), (''a2.png'', ''h''), (''a3.png'', ''h'')],
               warnings = []\<rparr>,
      rescanScheduled = True\<rparr>"
  by (simp add: delete_eval all_succeed_def)

section \<open>Batches and the rescan\<close>

lemma tally0_fields [simp]:
  "deletedCount tally0 = 0" "errorCount tally0 = 0" "lastError tally0 = []"
  "requests tally0 = []" "warnings tally0 = []"
  by (simp_all add: tally0_def)

text \<open>
  C2. When a batch runs (a selection that is not empty, a repository string that parses),
  the requests are the selected paths whose hash is found, in the order of the selection,
  whatever the outcomes of the requests: each selected path has its request when all
  hashes are found. The count of deletions is the number of requests that succeeded, the
  count of failures the number of those that failed, the last error the one of the last
  failed request. The status gives the two counts in decimal and the last error when a
  request failed, and the count of deletions when none did. With three requests of which
  the second fails, the third is sent, and the tally is 2 deleted, 1 failed.
\<close>

theorem batch_continues_after_failure:
  "(selectedToDelete s \<noteq> [] \<and> parseRepo (repoStr s) = Some (owner, repo) \<longrightarrow>
      requests (batch (executeDelete remote s))
        = map (\<lambda>p. (p, sha_sent (duplicates s) p))
            (filter (\<lambda>p. truthy (lookupSha (duplicates s) p)) (selectedToDelete s))
    \<and> ((\<forall>p\<in>set (selectedToDelete s). truthy (lookupSha (duplicates s) p)) \<longrightarrow>
          map fst (requests (batch (executeDelete remote s))) = selectedToDelete s)
    \<and> deletedCount (batch (executeDelete remote s))
        = length (filter (\<lambda>(p, h). deleteFileFromGitHub (remote (trim (token s)) owner repo p h) = Inr ())
            (requests (batch (executeDelete remote s))))
    \<and> errorCount (batch (executeDelete remote s))
        = length (filter (\<lambda>(p, h). deleteFileFromGitHub (remote (trim (token s)) owner repo p h) \<noteq> Inr ())
            (requests (batch (executeDelete remote s))))
    \<and> lastError (batch (executeDelete remote s))
        = (if failures (remote (trim (token s)) owner repo) (duplicates s) (selectedToDelete s) = [] then []
           else classify (last (failures (remote (trim (token s)) owner repo) (duplicates s)
                                  (selectedToDelete s))))
    \<and> status (final (executeDelete remote s))
        = Some (if errorCount (batch (executeDelete remote s)) > 0
                then ''Completed with errors. Deleted: ''
                     @ digits (deletedCount (batch (executeDelete remote s)))
                     @ ''. Failed: '' @ digits (errorCount (batch (executeDelete remote s)))
                     @ ''. Last Error: '' @ lastError (batch (executeDelete remote s))
                else ''Cleanup complete! Successfully deleted ''
                     @ digits (deletedCount (batch (executeDelete remote s))) @ '' files.''))
   \<and> decimal (digits n) = n
   \<and> executeDelete second_fails example_selected =
     \<lparr>final = example_selected\<lparr>status :=
          Some ''Completed with errors. Deleted: 2. Failed: 1. Last Error: a2.png does not match h'',
          isDeleting := False, showConfirm := False\<rparr>,
      batch = \<lparr>deletedCount = 2, errorCount = 1, lastError = ''a2.png does not match h'',
               requests = [(''a1.png'', ''h''), (''a2.png'', ''h''), (''a3.png'', ''h'')],
               warnings = []\<rparr>,
      rescanScheduled = False\<rparr>"
proof (intro conjI impI)
  assume a: "selectedToDelete s \<noteq> [] \<and> parseRepo (repoStr s) = Some (owner, repo)"
  let ?R = "remote (trim (token s)) owner repo"
  let ?G = "duplicates s"
  let ?ps = "selectedToDelete s"
  let ?t = "delete_loop ?R ?G tally0 ?ps"
  from a have b: "batch (executeDelete remote s) = ?t"
    and st: "status (final (executeDelete remote s)) = Some (report ?t)"
    by (simp_all add: executeDelete_batch [of s owner repo remote] Let_def)
  have req: "requests ?t = map (\<lambda>p. (p, sha_sent ?G p)) (filter (\<lambda>p. truthy (lookupSha ?G p)) ?ps)"
    by (simp add: requests_delete_loop)
  show "requests (batch (executeDelete remote s))
        = map (\<lambda>p. (p, sha_sent ?G p)) (filter (\<lambda>p. truthy (lookupSha ?G p)) ?ps)"
    by (simp add: b req)
  show "deletedCount (batch (executeDelete remote s))
        = length (filter (\<lambda>(p, h). deleteFileFromGitHub (?R p h) = Inr ())
            (requests (batch (executeDelete remote s))))"
    by (simp add: b req deletedCount_delete_loop filter_map o_def conj_commute)
  show "errorCount (batch (executeDelete remote s))
        = length (filter (\<lambda>(p, h). deleteFileFromGitHub (?R p h) \<noteq> Inr ())
            (requests (batch (executeDelete remote s))))"
    by (simp add: b req errorCount_delete_loop length_failures filter_map o_def conj_commute)
  show "lastError (batch (executeDelete remote s))
        = (if failures ?R ?G ?ps = [] then [] else classify (last (failures ?R ?G ?ps)))"
    by (simp add: b lastError_delete_loop)
  show "status (final (executeDelete remote s))
        = Some (if errorCount (batch (executeDelete remote s)) > 0
                then ''Completed with errors. Deleted: ''
                     @ digits (deletedCount (batch (executeDelete remote s)))
                     @ ''. Failed: '' @ digits (errorCount (batch (executeDelete remote s)))
                     @ ''. Last Error: '' @ lastError (batch (executeDelete remote s))
                else ''Cleanup complete! Successfully deleted ''
                     @ digits (deletedCount (batch (executeDelete remote s))) @ '' files.'')"
    by (simp add: b st report_def)
  assume "\<forall>p\<in>set ?ps. truthy (lookupSha ?G p)"
  then have "filter (\<lambda>p. truthy (lookupSha ?G p)) ?ps = ?ps" by simp
  then show "map fst (requests (batch (executeDelete remote s))) = ?ps"
    by (simp add: b req o_def)
next
  show "decimal (digits n) = n" by (rule decimal_digits)
next
  show "executeDelete second_fails example_selected =
     \<lparr>final = example_selected\<lparr>status :=
          Some ''Completed with errors. Deleted: 2. Failed: 1. Last Error: a2.png does not match h'',
          isDeleting := False, showConfirm := False\<rparr>,
      batch = \<lparr>deletedCount = 2, errorCount = 1, lastError = ''a2.png does not match h'',
               requests = [(''a1.png'', ''h''), (''a2.png'', ''h''), (''a3.png'', ''h'')],
               warnings = []\<rparr>,
      rescanScheduled = False\<rparr>"
    by (simp add: delete_eval second_fails_def)
qed

lemma example_selected_valid:
  "selectedToDelete example_selected \<noteq> []"
  "parseRepo (repoStr example_selected) = Some (''jaymacmac'', ''pics'')"
  by (simp_all add: example_selected_def example_state_def parseRepo_example)

lemma example_selected_resolve:
  "\<forall>p\<in>set (selectedToDelete example_selected). truthy (lookupSha (duplicates example_selected) p)"
  by (simp add: example_selected_def example_groups_def file_named_def truthy_def)

theorem batch_continues_after_failure_witness:
  "selectedToDelete example_selected \<noteq> []
   \<and> parseRepo (repoStr example_selected) = Some (''jaymacmac'', ''pics'')
   \<and> selectedToDelete example_selected = [''a1.png'', ''a2.png'', ''a3.png'']
   \<and> truthy (lookupSha (duplicates example_selected) ''a1.png'')
   \<and> truthy (lookupSha (duplicates example_selected) ''a2.png'')
   \<and> truthy (lookupSha (duplicates example_selected) ''a3.png'')
   \<and> map fst (requests (batch (executeDelete second_fails example_selected)))
       = [''a1.png'', ''a2.png'', ''a3.png'']
   \<and> status (final (executeDelete second_fails example_selected))
       = Some ''Completed with errors. Deleted: 2. Failed: 1. Last Error: a2.png does not match h''"
proof -
  note v = example_selected_valid example_selected_resolve
  from batch_continues_after_failure [of example_selected "''jaymacmac''" "''pics''" second_fails] v
  have "map fst (requests (batch (executeDelete second_fails example_selected)))
          = selectedToDelete example_selected"
    by blast
  moreover have "status (final (executeDelete second_fails example_selected))
       = Some ''Completed with errors. Deleted: 2. Failed: 1. Last Error: a2.png does not match h''"
    by (simp add: delete_eval second_fails_def)
  moreover have "selectedToDelete example_selected = [''a1.png'', ''a2.png'', ''a3.png'']"
    by (simp add: example_selected_def)
  ultimately show ?thesis using v by simp
qed

text \<open>
  C3. When a batch runs, the timer of the rescan is set exactly when the count of
  failures is zero, that is when every request sent succeeded. The groups and the
  selection of the state are left as they were; the rescan replaces them, and it runs
  only when no request failed.
\<close>

theorem rescan_iff_no_failure:
  "selectedToDelete s \<noteq> [] \<and> parseRepo (repoStr s) = Some (owner, repo) \<longrightarrow>
     (rescanScheduled (executeDelete remote s) \<longleftrightarrow> errorCount (batch (executeDelete remote s)) = 0)
   \<and> (rescanScheduled (executeDelete remote s) \<longleftrightarrow>
        (\<forall>(p, h)\<in>set (requests (batch (executeDelete remote s))).
            deleteFileFromGitHub (remote (trim (token s)) owner repo p h) = Inr ()))
   \<and> duplicates (final (executeDelete remote s)) = duplicates s
   \<and> selectedToDelete (final (executeDelete remote s)) = selectedToDelete s
   \<and> executeDelete_and_timer localeCompare listing_remote remote s
       = (if errorCount (batch (executeDelete remote s)) = 0
          then handleScan localeCompare listing_remote (final (executeDelete remote s))
          else final (executeDelete remote s))"
proof (intro conjI impI)
  assume a: "selectedToDelete s \<noteq> [] \<and> parseRepo (repoStr s) = Some (owner, repo)"
  let ?R = "remote (trim (token s)) owner repo"
  let ?G = "duplicates s"
  let ?ps = "selectedToDelete s"
  let ?t = "delete_loop ?R ?G tally0 ?ps"
  from a have b: "batch (executeDelete remote s) = ?t"
    and r: "rescanScheduled (executeDelete remote s) \<longleftrightarrow> errorCount ?t = 0"
    and f: "final (executeDelete remote s)
              = s\<lparr>status := Some (report ?t), isDeleting := False, showConfirm := False\<rparr>"
    by (simp_all add: executeDelete_batch [of s owner repo remote] Let_def)
  show 1: "rescanScheduled (executeDelete remote s) \<longleftrightarrow> errorCount (batch (executeDelete remote s)) = 0"
    by (simp add: b r)
  have "errorCount ?t = 0 \<longleftrightarrow>
      (\<forall>(p, h)\<in>set (requests ?t). deleteFileFromGitHub (?R p h) = Inr ())"
    by (auto simp: errorCount_delete_loop length_failures requests_delete_loop
        filter_empty_conv)
  then show "rescanScheduled (executeDelete remote s) \<longleftrightarrow>
        (\<forall>(p, h)\<in>set (requests (batch (executeDelete remote s))).
            deleteFileFromGitHub (?R p h) = Inr ())"
    by (simp add: b r)
  show "duplicates (final (executeDelete remote s)) = duplicates s"
    and "selectedToDelete (final (executeDelete remote s)) = selectedToDelete s"
    by (simp_all add: f)
  show "executeDelete_and_timer localeCompare listing_remote remote s
       = (if errorCount (batch (executeDelete remote s)) = 0
          then handleScan localeCompare listing_remote (final (executeDelete remote s))
          else final (executeDelete remote s))"
    using 1 by (simp add: executeDelete_and_timer_def Let_def)
qed

theorem rescan_iff_no_failure_witness:
  "selectedToDelete example_selected \<noteq> []
   \<and> parseRepo (repoStr example_selected) = Some (''jaymacmac'', ''pics'')
   \<and> \<not> rescanScheduled (executeDelete second_fails example_selected)
   \<and> duplicates (executeDelete_and_timer example_collation example_listing second_fails example_selected) = example_groups
   \<and> rescanScheduled (executeDelete all_succeed example_selected)
   \<and> selectedToDelete (executeDelete_and_timer example_collation example_listing all_succeed example_selected)
       = [''bbb.png'']"
proof -
  note v = example_selected_valid
  have e1: "errorCount (batch (executeDelete second_fails example_selected)) = 1"
    by (simp add: delete_eval second_fails_def)
  have e2: "errorCount (batch (executeDelete all_succeed example_selected)) = 0"
    by (simp add: delete_eval all_succeed_def)
  from rescan_iff_no_failure [of example_selected "''jaymacmac''" "''pics''" second_fails example_collation example_listing] v e1
  have 1: "\<not> rescanScheduled (executeDelete second_fails example_selected)"
    and 2: "executeDelete_and_timer example_collation example_listing second_fails example_selected
              = final (executeDelete second_fails example_selected)"
    and 3: "duplicates (final (executeDelete second_fails example_selected))
              = duplicates example_selected"
    by simp_all
  from rescan_iff_no_failure [of example_selected "''jaymacmac''" "''pics''" all_succeed example_collation example_listing] v e2
  have 4: "rescanScheduled (executeDelete all_succeed example_selected)"
    and 5: "executeDelete_and_timer example_collation example_listing all_succeed example_selected
              = handleScan example_collation example_listing (final (executeDelete all_succeed example_selected))"
    by simp_all
  have 6: "selectedToDelete (handleScan example_collation example_listing (final (executeDelete all_succeed example_selected)))
             = [''bbb.png'']"
    unfolding all_succeed_run
    by (simp add: handleScan_def example_selected_def example_state_def
        parseRepo_example trim_example getRepoFiles_def example_listing_def isImageFile_examples
        scan_eval example_collation_values)
  from v 1 2 3 4 5 6 show ?thesis by (simp add: example_selected_def)
qed

section \<open>Skipped paths and failed requests\<close>




lemma deleteFileFromGitHub_text:
  "carries_text fetched \<Longrightarrow> deleteFileFromGitHub fetched = Inl e \<Longrightarrow> truthy (message e)"
  by (auto simp: carries_text_def deleteFileFromGitHub_def truthy_def or_else_def
      split: sum.splits if_splits option.splits)

lemma includes_scope_hint: "includes_str scope_hint ''Not Found''"
  by (simp add: scope_hint_def)

lemma classify_text:
  "m \<noteq> [] \<Longrightarrow> classify (Error (Some m)) = (if includes_str m ''Not Found'' then scope_hint else m)"
  by (simp add: classify_def or_else_def)

text \<open>
  C7. The errors of the host carrying a text, a failed request adds one to the count of
  failures and nothing to the count of deletions, and its error has a message that is not
  empty. The last error becomes the scope hint when that message has \<open>Not Found\<close> in it,
  and the message itself otherwise, which is never the scope hint. Over a batch the count
  of failures is the number of failed requests and the last error the one of the last
  failed request.
\<close>

theorem failed_request_classified:
  "(truthy (lookupSha G p) \<and> carries_text (R p (sha_sent G p))
      \<and> deleteFileFromGitHub (R p (sha_sent G p)) = Inl e \<longrightarrow>
      requests (delete_step R G t p) = requests t @ [(p, sha_sent G p)]
    \<and> errorCount (delete_step R G t p) = errorCount t + 1
    \<and> deletedCount (delete_step R G t p) = deletedCount t
    \<and> (\<exists>m. message e = Some m \<and> m \<noteq> []
          \<and> lastError (delete_step R G t p)
              = (if includes_str m ''Not Found'' then scope_hint else m)
          \<and> (\<not> includes_str m ''Not Found'' \<longrightarrow> lastError (delete_step R G t p) \<noteq> scope_hint)))
   \<and> errorCount (delete_loop R G tally0 ps) = length (failures R G ps)
   \<and> (failures R G ps = es @ [Error (Some m')] \<and> m' \<noteq> [] \<longrightarrow>
        lastError (delete_loop R G tally0 ps)
          = (if includes_str m' ''Not Found'' then scope_hint else m'))
   \<and> scope_hint = ''404 Not Found (Check if Token has 'repo' or 'public_repo' write scope)''"
proof (intro conjI impI)
  assume a: "truthy (lookupSha G p) \<and> carries_text (R p (sha_sent G p))
      \<and> deleteFileFromGitHub (R p (sha_sent G p)) = Inl e"
  then have s: "delete_step R G t p =
     t\<lparr>requests := requests t @ [(p, sha_sent G p)], errorCount := errorCount t + 1,
       lastError := classify e\<rparr>"
    by (simp add: delete_step_fail)
  show "requests (delete_step R G t p) = requests t @ [(p, sha_sent G p)]"
    and "errorCount (delete_step R G t p) = errorCount t + 1"
    and "deletedCount (delete_step R G t p) = deletedCount t"
    by (simp_all add: s)
  from a have "truthy (message e)" by (auto dest: deleteFileFromGitHub_text)
  then obtain m where m: "message e = Some m" "m \<noteq> []"
    by (auto simp: truthy_def split: option.splits)
  then have e: "e = Error (Some m)" by (cases e) simp
  have l: "lastError (delete_step R G t p) = (if includes_str m ''Not Found'' then scope_hint else m)"
    by (simp add: s e classify_text [OF m(2)])
  moreover have "\<not> includes_str m ''Not Found'' \<longrightarrow> lastError (delete_step R G t p) \<noteq> scope_hint"
    using l includes_scope_hint by auto
  ultimately show "\<exists>m. message e = Some m \<and> m \<noteq> []
          \<and> lastError (delete_step R G t p)
              = (if includes_str m ''Not Found'' then scope_hint else m)
          \<and> (\<not> includes_str m ''Not Found'' \<longrightarrow> lastError (delete_step R G t p) \<noteq> scope_hint)"
    using m by blast
next
  show "errorCount (delete_loop R G tally0 ps) = length (failures R G ps)"
    by (simp add: errorCount_delete_loop)
next
  assume "failures R G ps = es @ [Error (Some m')] \<and> m' \<noteq> []"
  then show "lastError (delete_loop R G tally0 ps)
          = (if includes_str m' ''Not Found'' then scope_hint else m')"
    by (simp add: lastError_delete_loop classify_text)
next
  show "scope_hint = ''404 Not Found (Check if Token has 'repo' or 'public_repo' write scope)''"
    by (simp add: scope_hint_def)
qed

theorem failed_request_classified_witness:
  "truthy (lookupSha example_groups ''a2.png'')
   \<and> carries_text (second_fails [] [] [] ''a2.png'' (sha_sent example_groups ''a2.png''))
   \<and> deleteFileFromGitHub (second_fails [] [] [] ''a2.png'' (sha_sent example_groups ''a2.png''))
       = Inl (Error (Some ''a2.png does not match h''))
   \<and> errorCount (delete_step (second_fails [] [] []) example_groups tally0 ''a2.png'') = 1
   \<and> lastError (delete_step (second_fails [] [] []) example_groups tally0 ''a2.png'')
       = ''a2.png does not match h''
   \<and> carries_text (all_not_found ''a2.png'' (sha_sent example_groups ''a2.png''))
   \<and> deleteFileFromGitHub (all_not_found ''a2.png'' (sha_sent example_groups ''a2.png''))
       = Inl (Error (Some ''Not Found''))
   \<and> lastError (delete_step all_not_found example_groups tally0 ''a2.png'') = scope_hint
   \<and> failures all_not_found example_groups [''a2.png''] = [] @ [Error (Some ''Not Found'')]
   \<and> lastError (delete_loop all_not_found example_groups tally0 [''a2.png'']) = scope_hint"
proof -
  have r: "truthy (lookupSha example_groups ''a2.png'')"
    by (simp add: example_groups_def file_named_def truthy_def)
  have c1: "carries_text (second_fails [] [] [] ''a2.png'' (sha_sent example_groups ''a2.png''))"
    by (simp add: carries_text_def second_fails_def)
  have f1: "deleteFileFromGitHub (second_fails [] [] [] ''a2.png'' (sha_sent example_groups ''a2.png''))
       = Inl (Error (Some ''a2.png does not match h''))"
    by (simp add: deleteFileFromGitHub_def second_fails_def or_else_def)
  have c2: "carries_text (all_not_found ''a2.png'' (sha_sent example_groups ''a2.png''))"
    by (simp add: carries_text_def all_not_found_def)
  have f2: "deleteFileFromGitHub (all_not_found ''a2.png'' (sha_sent example_groups ''a2.png''))
       = Inl (Error (Some ''Not Found''))"
    by (simp add: deleteFileFromGitHub_def all_not_found_def or_else_def)
  have fs: "failures all_not_found example_groups [''a2.png''] = [] @ [Error (Some ''Not Found'')]"
    using r f2 by (simp add: failures_def)
  note i1 = failed_request_classified [where G = example_groups and p = "''a2.png''"
      and R = "second_fails [] [] []" and e = "Error (Some ''a2.png does not match h'')"
      and t = tally0]
  from i1 r c1 f1
  have 1: "errorCount (delete_step (second_fails [] [] []) example_groups tally0 ''a2.png'')
          = errorCount tally0 + 1"
    and 2: "\<exists>m. message (Error (Some ''a2.png does not match h'')) = Some m \<and> m \<noteq> []
          \<and> lastError (delete_step (second_fails [] [] []) example_groups tally0 ''a2.png'')
              = (if includes_str m ''Not Found'' then scope_hint else m)
          \<and> (\<not> includes_str m ''Not Found'' \<longrightarrow>
               lastError (delete_step (second_fails [] [] []) example_groups tally0 ''a2.png'')
                 \<noteq> scope_hint)"
    by blast+
  from 2 have 3: "lastError (delete_step (second_fails [] [] []) example_groups tally0 ''a2.png'')
       = ''a2.png does not match h''"
    by auto
  note i2 = failed_request_classified [where G = example_groups and p = "''a2.png''"
      and R = all_not_found and e = "Error (Some ''Not Found'')" and t = tally0
      and ps = "[''a2.png'']" and es = "[]" and m' = "''Not Found''"]
  from i2 r c2 f2
  have "\<exists>m. message (Error (Some ''Not Found'')) = Some m \<and> m \<noteq> []
          \<and> lastError (delete_step all_not_found example_groups tally0 ''a2.png'')
              = (if includes_str m ''Not Found'' then scope_hint else m)
          \<and> (\<not> includes_str m ''Not Found'' \<longrightarrow>
               lastError (delete_step all_not_found example_groups tally0 ''a2.png'') \<noteq> scope_hint)"
    by blast
  then have 4: "lastError (delete_step all_not_found example_groups tally0 ''a2.png'') = scope_hint"
    by auto
  from i2 fs
  have 5: "lastError (delete_loop all_not_found example_groups tally0 [''a2.png'']) = scope_hint"
    by simp
  from r c1 f1 c2 f2 fs 1 3 4 5 show ?thesis by simp
qed

section \<open>The directory listing\<close>

lemma split_str_nonempty [simp]: "split_str c s \<noteq> []"
  by (induction s) (auto split: list.splits)

lemma split_str_no_sep: "c \<notin> set s \<Longrightarrow> split_str c s = [s]"
  by (induction s) auto

lemma split_str_sep: "c \<in> set s \<Longrightarrow> \<exists>a b rest. split_str c s = a # b # rest"
proof (induction s)
  case Nil
  then show ?case by simp
next
  case (Cons x xs)
  show ?case
  proof (cases "x = c")
    case True
    then show ?thesis by (cases "split_str c xs") (auto split: list.splits)
  next
    case False
    with Cons.prems have "c \<in> set xs" by simp
    from Cons.IH [OF this] False show ?thesis by auto
  qed
qed

lemma last_split_str:
  "last (split_str c s) = rev (takeWhile (\<lambda>x. x \<noteq> c) (rev s))"
proof (induction s)
  case Nil
  show ?case by simp
next
  case (Cons x xs)
  show ?case
  proof (cases "x = c")
    case True
    with Cons.IH show ?thesis by (simp add: takeWhile_append)
  next
    case False
    show ?thesis
    proof (cases "c \<in> set xs")
      case True
      from split_str_sep [OF True] obtain a b rest where "split_str c xs = a # b # rest" by blast
      with Cons.IH False True show ?thesis by (auto simp: takeWhile_append)
    next
      case False
      then have "takeWhile (\<lambda>x. x \<noteq> c) (rev xs) = rev xs" by (auto simp: takeWhile_eq_all_conv)
      with False \<open>x \<noteq> c\<close> show ?thesis
        by (auto simp: split_str_no_sep takeWhile_append)
    qed
  qed
qed

lemma isImageFile_last_piece:
  "isImageFile filename \<longleftrightarrow>
     toLowerCase (case text_after_last_dot filename of Some e \<Rightarrow> e | None \<Rightarrow> filename)
       \<in> set image_extensions"
proof (cases "CHR ''.'' \<in> set filename")
  case True
  then show ?thesis
    by (simp add: isImageFile_def pop_def or_else_def text_after_last_dot_def last_split_str)
next
  case False
  then show ?thesis
    by (simp add: isImageFile_def pop_def or_else_def text_after_last_dot_def split_str_no_sep)
qed

text \<open>
  C10, as stated, fails on a name without a dot: the file named \<open>png\<close> is returned, and
  its name has no text after a last dot.
\<close>

theorem dotless_name_counterexample:
  "getRepoFiles (Inr (Response True ''OK'' (Inr (Array [dotless_png])))) = Inr [dotless_png]
   \<and> type dotless_png = ''file''
   \<and> name dotless_png = ''png''
   \<and> text_after_last_dot (name dotless_png) = None"
proof -
  have "isImageFile ''png''" by code_simp
  then show ?thesis
    by (simp add: getRepoFiles_def dotless_png_def text_after_last_dot_def)
qed

text \<open>
  C10, amended. Every record that \<open>getRepoFiles\<close> returns has type \<open>file\<close>, and the text
  after the last dot of its name, or its whole name when it has no dot, is in lower case
  one of jpg, jpeg, png, gif, webp, bmp, svg. On a listing that is an array it returns
  exactly the entries of that kind, in order; on a body that is not an array, the empty
  list.
\<close>

theorem listing_keeps_image_files_only:
  "(getRepoFiles fetched = Inr result \<longrightarrow>
      (\<forall>f\<in>set result. type f = ''file''
         \<and> toLowerCase (case text_after_last_dot (name f) of Some e \<Rightarrow> e | None \<Rightarrow> name f)
             \<in> {''jpg'', ''jpeg'', ''png'', ''gif'', ''webp'', ''bmp'', ''svg''}))
   \<and> getRepoFiles (Inr (Response True st (Inr (Array data))))
       = Inr (filter (\<lambda>f. type f = ''file''
                \<and> toLowerCase (case text_after_last_dot (name f) of Some e \<Rightarrow> e | None \<Rightarrow> name f)
                    \<in> {''jpg'', ''jpeg'', ''png'', ''gif'', ''webp'', ''bmp'', ''svg''})
              data)
   \<and> getRepoFiles (Inr (Response True st (Inr NotArray))) = Inr []"
proof (intro conjI impI ballI)
  have ext: "\<And>n. isImageFile n \<longleftrightarrow>
      toLowerCase (case text_after_last_dot n of Some e \<Rightarrow> e | None \<Rightarrow> n)
        \<in> {''jpg'', ''jpeg'', ''png'', ''gif'', ''webp'', ''bmp'', ''svg''}"
    by (simp add: isImageFile_last_piece image_extensions_def)
  show "getRepoFiles (Inr (Response True st (Inr (Array data))))
       = Inr (filter (\<lambda>f. type f = ''file''
                \<and> toLowerCase (case text_after_last_dot (name f) of Some e \<Rightarrow> e | None \<Rightarrow> name f)
                    \<in> {''jpg'', ''jpeg'', ''png'', ''gif'', ''webp'', ''bmp'', ''svg''})
              data)"
    by (simp add: getRepoFiles_def ext)
  show "getRepoFiles (Inr (Response True st (Inr NotArray))) = Inr []"
    by (simp add: getRepoFiles_def)
  fix f
  assume r: "getRepoFiles fetched = Inr result" and f: "f \<in> set result"
  from r f have "type f = ''file'' \<and> isImageFile (name f)"
    by (auto simp: getRepoFiles_def split: sum.splits if_splits listing.splits)
  then show "type f = ''file''"
    and "toLowerCase (case text_after_last_dot (name f) of Some e \<Rightarrow> e | None \<Rightarrow> name f)
           \<in> {''jpg'', ''jpeg'', ''png'', ''gif'', ''webp'', ''bmp'', ''svg''}"
    by (simp_all add: ext)
qed

theorem listing_keeps_image_files_only_witness:
  "getRepoFiles (Inr (Response True ''OK'' (Inr (Array example_directory))))
     = Inr [\<lparr>name = ''a.PNG'', type = ''file'', download_url = [], sha = Some ''h'', path = ''a.PNG''\<rparr>]
   \<and> type \<lparr>name = ''a.PNG'', type = ''file'', download_url = [], sha = Some ''h'', path = ''a.PNG''\<rparr>
       = ''file''
   \<and> text_after_last_dot ''a.PNG'' = Some ''PNG''
   \<and> toLowerCase ''PNG'' = ''png''"
proof -
  let ?a = "\<lparr>name = ''a.PNG'', type = ''file'', download_url = [], sha = Some ''h'', path = ''a.PNG''\<rparr>"
  have i: "isImageFile ''a.PNG''" "\<not> isImageFile ''notes.txt''" by code_simp+
  have r: "getRepoFiles (Inr (Response True ''OK'' (Inr (Array example_directory)))) = Inr [?a]"
    by (simp add: getRepoFiles_def example_directory_def i)
  have e: "text_after_last_dot ''a.PNG'' = Some ''PNG''" by (simp add: text_after_last_dot_def)
  have lo: "toLowerCase ''PNG'' = ''png''" by code_simp
  note inst = listing_keeps_image_files_only
    [of "Inr (Response True ''OK'' (Inr (Array example_directory)))" "[?a]"]
  from inst r have "\<forall>f\<in>set [?a]. type f = ''file''" by blast
  then have "type ?a = ''file''" by simp
  with r e lo show ?thesis by simp
qed

section \<open>The scene after a run\<close>

lemmas scene_eval = runUserCode_def new_Scene_def UniversalCamera_def HemisphericLight_def
  ErrorBox_def interpolate_def visualizer0_def Let_def

lemma returned_scene_repaired:
  "code new_Scene = (sc, Returned) \<Longrightarrow>
   map_option activeCamera (sceneRef (runUserCode code v))
     = Some (case activeCamera sc of
               None \<Rightarrow> Some \<lparr>camera_name = ''FallbackCamera'', position = (0, 0, - 10),
                              target = (0, 0, 0), controlsAttached = False\<rparr>
             | Some c \<Rightarrow> Some c)
   \<and> map_option lights (sceneRef (runUserCode code v))
       = Some (if lights sc = [] then [\<lparr>light_name = ''fallbackLight'', direction = (0, 1, 0)\<rparr>]
               else lights sc)
   \<and> map_option meshes (sceneRef (runUserCode code v)) = Some (meshes sc)"
  by (cases "activeCamera sc")
    (simp_all add: runUserCode_def UniversalCamera_def HemisphericLight_def Let_def)

text \<open>
  C9 does not hold of \<open>runUserCode\<close> when the program throws. Thrown on the untouched
  scene, the result has the marker and a camera but no light; thrown after a mesh was
  added, the result has neither camera nor light; and when \<open>null\<close> is thrown the catch
  block itself throws, so that the scene with no mesh gets no marker, no camera and no
  light, and no error is reported. The program that returns gets both repairs.
\<close>

theorem throwing_program_unrepaired:
  "runUserCode throws_at_once visualizer0 =
     \<lparr>sceneRef = Some \<lparr>activeCamera = Some \<lparr>camera_name = ''ErrorCam'', position = (0, 0, - 10),
                                            target = (0, 0, 0), controlsAttached = False\<rparr>,
                        cameras = [\<lparr>camera_name = ''ErrorCam'', position = (0, 0, - 10),
                                    target = (0, 0, 0), controlsAttached = False\<rparr>],
                        lights = [],
                        meshes = [\<lparr>mesh_name = ''ErrorBox'',
                                   mesh_material = Some \<lparr>material_name = ''errMat'',
                                                         diffuseColor = (1, 0, 0)\<rparr>\<rparr>],
                        materials = [\<lparr>material_name = ''errMat'', diffuseColor = (1, 0, 0)\<rparr>]\<rparr>,
      disposed = [], onLog = [], onError = [''Runtime Error: boom''], rejections = []\<rparr>
   \<and> runUserCode mesh_then_throws visualizer0 =
     \<lparr>sceneRef = Some \<lparr>activeCamera = None, cameras = [], lights = [],
                        meshes = [\<lparr>mesh_name = ''sphere'', mesh_material = None\<rparr>],
                        materials = []\<rparr>,
      disposed = [], onLog = [], onError = [''Runtime Error: boom''], rejections = []\<rparr>
   \<and> runUserCode throws_null visualizer0 =
     \<lparr>sceneRef = Some \<lparr>activeCamera = None, cameras = [], lights = [], meshes = [],
                        materials = []\<rparr>,
      disposed = [], onLog = [], onError = [], rejections = [TypeError]\<rparr>
   \<and> runUserCode empty_program visualizer0 =
     \<lparr>sceneRef = Some \<lparr>activeCamera = Some \<lparr>camera_name = ''FallbackCamera'',
                                            position = (0, 0, - 10), target = (0, 0, 0),
                                            controlsAttached = False\<rparr>,
                        cameras = [\<lparr>camera_name = ''FallbackCamera'', position = (0, 0, - 10),
                                    target = (0, 0, 0), controlsAttached = False\<rparr>],
                        lights = [\<lparr>light_name = ''fallbackLight'', direction = (0, 1, 0)\<rparr>],
                        meshes = [], materials = []\<rparr>,
      disposed = [], onLog = [''Scene updated successfully.''], onError = [], rejections = []\<rparr>"
  by (simp add: scene_eval throws_at_once_def mesh_then_throws_def throws_null_def
      empty_program_def)

end
